theory Spec2Isabelle
  imports Complex_Main
begin

section \<open>Birdhouse viewer: motion video capture and motion notification\<close>

text \<open>
  The repository holds two MQTT services. \<^verbatim>\<open>motion_video_capture.py\<close> opens a capture
  session on a motion message, buffers the streamed frames of the device, turns them into
  an MJPEG file with ffmpeg, stores a row in \<^verbatim>\<open>motionVideos\<close> and trims old videos.
  \<^verbatim>\<open>motion_notification_handler.py\<close> records a motion event and sends a push
  notification.

  Both are modelled as functions on an explicit world: the module-level dictionary
  \<^verbatim>\<open>active_captures\<close>, the database tables, the video directory and the list of calls that
  left the process (MQTT publishes, ffmpeg runs, SQL statements), in order. What the
  outside answers during one callback (the clock, whether a database connection could be
  opened, what ffmpeg returned, what the JSON and Base64 libraries made of a payload) is the
  \<open>env\<close> argument of that callback.
\<close>

subsection \<open>Python strings and bytes\<close>

text \<open>
  \<^verbatim>\<open>bytes\<close> is a list of 8-bit characters. A decoded \<^verbatim>\<open>str\<close> is a list of code
  points. Topics and device identifiers are kept as \<open>string\<close>.
\<close>

type_synonym bytes = string
type_synonym ustr = "nat list"

definition text_of :: "string \<Rightarrow> ustr" where
  "text_of s = map of_char s"

text \<open>\<^verbatim>\<open>s.split('/')\<close>: every separator cuts, so the result is never empty.\<close>

fun str_split :: "char \<Rightarrow> string \<Rightarrow> string list" where
  "str_split c [] = [[]]"
| "str_split c (x # xs) =
     (if x = c then [] # str_split c xs
      else (case str_split c xs of
              [] \<Rightarrow> [[x]]
            | p # ps \<Rightarrow> (x # p) # ps))"

text \<open>
  \<^verbatim>\<open>payload.decode('utf-8')\<close> in strict mode: \<open>None\<close> stands for UnicodeDecodeError.
  Overlong forms, surrogates and code points above U+10FFFF are refused.
\<close>

definition cont :: "nat \<Rightarrow> bool" where
  "cont b = (128 \<le> b \<and> b < 192)"

fun utf8_points :: "nat list \<Rightarrow> ustr option" where
  "utf8_points [] = Some []"
| "utf8_points (b # bs) =
     (if b < 128 then map_option (Cons b) (utf8_points bs)
      else if 194 \<le> b \<and> b < 224 then
        (case bs of
           c1 # r \<Rightarrow>
             if cont c1
             then map_option (Cons ((b - 192) * 64 + (c1 - 128))) (utf8_points r)
             else None
         | _ \<Rightarrow> None)
      else if 224 \<le> b \<and> b < 240 then
        (case bs of
           c1 # c2 # r \<Rightarrow>
             if cont c1 \<and> cont c2
                \<and> (if b = 224 then 160 \<le> c1 else True)
                \<and> (if b = 237 then c1 < 160 else True)
             then map_option
                    (Cons ((b - 224) * 4096 + (c1 - 128) * 64 + (c2 - 128)))
                    (utf8_points r)
             else None
         | _ \<Rightarrow> None)
      else if 240 \<le> b \<and> b < 245 then
        (case bs of
           c1 # c2 # c3 # r \<Rightarrow>
             if cont c1 \<and> cont c2 \<and> cont c3
                \<and> (if b = 240 then 144 \<le> c1 else True)
                \<and> (if b = 244 then c1 < 144 else True)
             then map_option
                    (Cons ((b - 240) * 262144 + (c1 - 128) * 4096
                           + (c2 - 128) * 64 + (c3 - 128)))
                    (utf8_points r)
             else None
         | _ \<Rightarrow> None)
      else None)"

definition utf8_decode :: "bytes \<Rightarrow> ustr option" where
  "utf8_decode bs = utf8_points (map of_char bs)"

text \<open>\<^verbatim>\<open>str.strip()\<close> removes the characters for which \<^verbatim>\<open>str.isspace\<close> holds.\<close>

definition is_space :: "nat \<Rightarrow> bool" where
  "is_space c =
     ((9 \<le> c \<and> c \<le> 13) \<or> (28 \<le> c \<and> c \<le> 32) \<or> c = 133 \<or> c = 160
      \<or> c = 5760 \<or> (8192 \<le> c \<and> c \<le> 8202) \<or> c = 8232 \<or> c = 8233
      \<or> c = 8239 \<or> c = 8287 \<or> c = 12288)"

definition strip :: "ustr \<Rightarrow> ustr" where
  "strip s = rev (dropWhile is_space (rev (dropWhile is_space s)))"

subsection \<open>The world of the video capture service\<close>

text \<open>Configuration constants of \<^verbatim>\<open>motion_video_capture.py\<close>.\<close>

definition VIDEO_DIR :: string where
  "VIDEO_DIR = ''/opt/birdhouse-viewer/videos''"

definition MAX_VIDEOS :: nat where
  "MAX_VIDEOS = 50"

definition VIDEO_DURATION :: int where
  "VIDEO_DURATION = 5"

definition FRAME_RATE :: int where
  "FRAME_RATE = 10"

text \<open>One entry of \<^verbatim>\<open>active_captures\<close>.\<close>

record capture =
  frames :: "bytes list"
  start_time :: real
  motion_event_id :: nat
  device_db_id :: nat

text \<open>Rows of the tables \<^verbatim>\<open>devices\<close>, \<^verbatim>\<open>motionEvents\<close> and \<^verbatim>\<open>motionVideos\<close>.\<close>

record device_row =
  d_id :: nat
  d_userId :: nat
  d_name :: string
  d_deviceId :: string

record motion_event_row =
  e_id :: nat
  e_deviceId :: nat
  e_detectedAt :: nat
  e_notificationSent :: nat

record video_row =
  v_id :: nat
  v_deviceId :: nat
  v_motionEventId :: nat
  v_filename :: string
  v_filepath :: string
  v_duration :: int
  v_filesize :: nat
  v_capturedAt :: nat

text \<open>The statements the service sends to the database, with their parameters.\<close>

datatype sql =
    Select_device string
  | Insert_motion_event nat
  | Count_videos nat
  | Select_oldest_videos nat nat
  | Delete_video nat
  | Insert_video nat nat string string int nat

text \<open>What leaves the process.\<close>

datatype effect =
    Publish string string
  | Ffmpeg "bytes list" string
  | Sql sql

text \<open>
  Tables are lists in insertion order; \<open>event_seq\<close> and \<open>video_seq\<close> are the last
  AUTO_INCREMENT values handed out, so a new row gets the successor and
  \<^verbatim>\<open>cursor.lastrowid\<close> is never 0. \<open>files\<close> maps a path to the content of the file there.
\<close>

record world =
  active_captures :: "string \<rightharpoonup> capture"
  devices :: "device_row list"
  motionEvents :: "motion_event_row list"
  event_seq :: nat
  motionVideos :: "video_row list"
  video_seq :: nat
  files :: "string \<rightharpoonup> bytes"
  trace :: "effect list"

text \<open>
  The answers of the outside during one callback:
  \<^item> \<open>clock\<close>: \<^verbatim>\<open>time.time()\<close>, as a real number of seconds;
  \<^item> \<open>stamp\<close>: \<^verbatim>\<open>datetime.now().strftime('%Y%m%d_%H%M%S')\<close>;
  \<^item> \<open>db_now\<close>: the value of SQL \<^verbatim>\<open>NOW()\<close>, in seconds;
  \<^item> \<open>lookup_ok\<close>, \<open>event_ok\<close>, \<open>save_ok\<close>, \<open>cleanup_ok\<close>: whether the database call
    of \<^verbatim>\<open>get_device_info\<close>, \<^verbatim>\<open>create_motion_event\<close>, \<^verbatim>\<open>save_video_to_db\<close>,
    \<^verbatim>\<open>cleanup_old_videos\<close> goes through (a connection that cannot be opened and a
    statement that raises both leave the tables as they were);
  \<^item> \<open>ffmpeg\<close>: \<open>Some data\<close> when ffmpeg exits with status 0 and has written \<open>data\<close> to
    the output path, \<open>None\<close> when it fails (a failed run is taken to leave nothing at
    the output path);
  \<^item> \<open>frame\<close>: \<open>Some image\<close> when the stream payload is UTF-8, parses as a JSON object
    with a key \<^verbatim>\<open>image\<close> and that value decodes from Base64 to \<open>image\<close>; \<open>None\<close>
    when any of these steps raises or the key is absent.
\<close>

record env =
  clock :: real
  stamp :: string
  db_now :: nat
  lookup_ok :: bool
  event_ok :: bool
  save_ok :: bool
  cleanup_ok :: bool
  ffmpeg :: "bytes option"
  frame :: "bytes option"

record mqtt_message =
  topic :: string
  payload :: bytes

subsection \<open>Database functions\<close>

text \<open>
  \<^verbatim>\<open>get_device_info\<close>: the first row of \<^verbatim>\<open>devices\<close> with this \<^verbatim>\<open>deviceId\<close>, or
  \<open>None\<close>.
\<close>

definition get_device_info :: "env \<Rightarrow> string \<Rightarrow> world \<Rightarrow> device_row option \<times> world" where
  "get_device_info e device_id w =
     (if \<not> lookup_ok e then (None, w)
      else (find (\<lambda>d. d_deviceId d = device_id) (devices w),
            w\<lparr>trace := trace w @ [Sql (Select_device device_id)]\<rparr>))"

text \<open>\<^verbatim>\<open>create_motion_event\<close>: inserts the event with \<^verbatim>\<open>notificationSent = 1\<close>.\<close>

definition create_motion_event :: "env \<Rightarrow> nat \<Rightarrow> world \<Rightarrow> nat option \<times> world" where
  "create_motion_event e dev w =
     (if \<not> event_ok e then (None, w)
      else
        (let new_id = Suc (event_seq w);
             row = \<lparr>e_id = new_id, e_deviceId = dev, e_detectedAt = db_now e,
                    e_notificationSent = 1\<rparr>
         in (Some new_id,
             w\<lparr>motionEvents := motionEvents w @ [row],
               event_seq := new_id,
               trace := trace w @ [Sql (Insert_motion_event dev)]\<rparr>)))"

subsection \<open>Starting a capture\<close>

definition start_video_capture :: "env \<Rightarrow> string \<Rightarrow> world \<Rightarrow> world" where
  "start_video_capture e device_id w =
     (case get_device_info e device_id w of
        (None, w1) \<Rightarrow> w1
      | (Some device_info, w1) \<Rightarrow>
          (case create_motion_event e (d_id device_info) w1 of
             (None, w2) \<Rightarrow> w2
           | (Some new_event_id, w2) \<Rightarrow>
               if new_event_id = 0 then w2
               else
                 w2\<lparr>active_captures := (active_captures w2)(device_id \<mapsto>
                        \<lparr>frames = [], start_time = clock e,
                         motion_event_id = new_event_id,
                         device_db_id = d_id device_info\<rparr>),
                    trace := trace w2
                      @ [Publish (''device/'' @ device_id @ ''/control'') ''start'']\<rparr>))"

subsection \<open>Storing and trimming videos\<close>

definition device_videos :: "nat \<Rightarrow> world \<Rightarrow> video_row list" where
  "device_videos dev w = filter (\<lambda>v. v_deviceId v = dev) (motionVideos w)"

text \<open>
  The body of the loop of \<^verbatim>\<open>cleanup_old_videos\<close>: remove the file if it is there, then
  delete the row with this \<^verbatim>\<open>id\<close>.
\<close>

definition delete_video :: "world \<Rightarrow> video_row \<Rightarrow> world" where
  "delete_video w video =
     w\<lparr>files := (files w)(v_filepath video := None),
       motionVideos := filter (\<lambda>v. v_id v \<noteq> v_id video) (motionVideos w),
       trace := trace w @ [Sql (Delete_video (v_id video))]\<rparr>"

text \<open>
  \<^verbatim>\<open>cleanup_old_videos\<close>. \<^verbatim>\<open>ORDER BY capturedAt ASC LIMIT n\<close> is a stable sort of the
  device's rows (equal times stay in insertion order) cut after \<open>n\<close> rows.
\<close>

definition cleanup_old_videos :: "env \<Rightarrow> nat \<Rightarrow> world \<Rightarrow> world" where
  "cleanup_old_videos e dev w =
     (if \<not> cleanup_ok e then w
      else
        (let count = length (device_videos dev w);
             w1 = w\<lparr>trace := trace w @ [Sql (Count_videos dev)]\<rparr>
         in if count \<ge> MAX_VIDEOS then
              (let videos_to_delete = count - MAX_VIDEOS + 1;
                   old_videos = take videos_to_delete
                                  (sort_key v_capturedAt (device_videos dev w));
                   w2 = w1\<lparr>trace := trace w1
                          @ [Sql (Select_oldest_videos dev videos_to_delete)]\<rparr>
               in foldl delete_video w2 old_videos)
            else w1))"

text \<open>\<^verbatim>\<open>save_video_to_db\<close>: one row, with \<^verbatim>\<open>duration = VIDEO_DURATION\<close>.\<close>

definition save_video_to_db ::
  "env \<Rightarrow> nat \<Rightarrow> nat \<Rightarrow> string \<Rightarrow> string \<Rightarrow> nat \<Rightarrow> world \<Rightarrow> bool \<times> world" where
  "save_video_to_db e dev event_id filename filepath filesize w =
     (if \<not> save_ok e then (False, w)
      else
        (let new_id = Suc (video_seq w);
             row = \<lparr>v_id = new_id, v_deviceId = dev, v_motionEventId = event_id,
                    v_filename = filename, v_filepath = filepath,
                    v_duration = VIDEO_DURATION, v_filesize = filesize,
                    v_capturedAt = db_now e\<rparr>
         in (True,
             w\<lparr>motionVideos := motionVideos w @ [row],
               video_seq := new_id,
               trace := trace w
                 @ [Sql (Insert_video dev event_id filename filepath
                           VIDEO_DURATION filesize)]\<rparr>)))"

subsection \<open>Encoding and finalizing\<close>

text \<open>
  \<^verbatim>\<open>create_mjpeg_video\<close> runs ffmpeg on the frames. The scratch directory
  \<^verbatim>\<open>temp_<time>\<close> with the single frame files is not part of the model.
\<close>

definition create_mjpeg_video :: "env \<Rightarrow> bytes list \<Rightarrow> string \<Rightarrow> world \<Rightarrow> bool \<times> world" where
  "create_mjpeg_video e fs output_path w =
     (let w1 = w\<lparr>trace := trace w @ [Ffmpeg fs output_path]\<rparr>
      in case ffmpeg e of
           None \<Rightarrow> (False, w1)
         | Some data \<Rightarrow> (True, w1\<lparr>files := (files w1)(output_path \<mapsto> data)\<rparr>))"

text \<open>
  \<^verbatim>\<open>finalize_video\<close>. \<^verbatim>\<open>os.path.getsize\<close> raises when the file is missing; the
  exception leaves \<^verbatim>\<open>finalize_video\<close> before the session is deleted and is logged by
  the caller, so that branch returns the world as it is.
\<close>

definition finalize_video :: "env \<Rightarrow> string \<Rightarrow> world \<Rightarrow> world" where
  "finalize_video e device_id w =
     (case active_captures w device_id of
        None \<Rightarrow> w
      | Some capture \<Rightarrow>
          if length (frames capture) < 5
          then w\<lparr>active_captures := (active_captures w)(device_id := None)\<rparr>
          else
            (let filename = device_id @ ''_'' @ stamp e @ ''.mjpeg'';
                 filepath = VIDEO_DIR @ ''/'' @ filename
             in case create_mjpeg_video e (frames capture) filepath w of
                  (False, w1) \<Rightarrow>
                    w1\<lparr>active_captures := (active_captures w1)(device_id := None)\<rparr>
                | (True, w1) \<Rightarrow>
                    (case files w1 filepath of
                       None \<Rightarrow> w1
                     | Some data \<Rightarrow>
                         (let filesize = length data
                          in case save_video_to_db e (device_db_id capture)
                                    (motion_event_id capture) filename filepath
                                    filesize w1 of
                               (True, w2) \<Rightarrow>
                                 (let w3 = cleanup_old_videos e (device_db_id capture) w2
                                  in w3\<lparr>active_captures :=
                                          (active_captures w3)(device_id := None)\<rparr>)
                             | (False, w2) \<Rightarrow>
                                 w2\<lparr>files := (files w2)(filepath := None),
                                    active_captures :=
                                      (active_captures w2)(device_id := None)\<rparr>))))"

subsection \<open>Frames and the router\<close>

text \<open>
  \<^verbatim>\<open>process_stream_message\<close>. The frame that \<^verbatim>\<open>json.loads\<close> and
  \<^verbatim>\<open>base64.b64decode\<close> get out of \<open>message\<close> is \<open>frame e\<close>; every exception of the
  body is caught and logged.
\<close>

definition process_stream_message :: "env \<Rightarrow> string \<Rightarrow> bytes \<Rightarrow> world \<Rightarrow> world" where
  "process_stream_message e device_id message w =
     (case frame e of
        None \<Rightarrow> w
      | Some image_data \<Rightarrow>
          (case active_captures w device_id of
             None \<Rightarrow> w
           | Some capture \<Rightarrow>
               (let capture' = capture\<lparr>frames := frames capture @ [image_data]\<rparr>;
                    w1 = w\<lparr>active_captures := (active_captures w)(device_id \<mapsto> capture')\<rparr>;
                    elapsed = clock e - start_time capture;
                    expected_frames = VIDEO_DURATION * FRAME_RATE
                in if int (length (frames capture')) \<ge> expected_frames
                      \<or> elapsed \<ge> of_int (VIDEO_DURATION + 1)
                   then finalize_video e device_id w1
                   else w1)))"

text \<open>
  \<^verbatim>\<open>on_message\<close> of the capture service. A payload that is not UTF-8 raises in
  \<^verbatim>\<open>decode\<close>; the handler logs it and returns.
\<close>

definition on_message :: "env \<Rightarrow> mqtt_message \<Rightarrow> world \<Rightarrow> world" where
  "on_message e msg w =
     (let topic_parts = str_split CHR ''/'' (topic msg)
      in if length topic_parts < 3 then w
         else
           (let device_id = topic_parts ! 1;
                topic_type = topic_parts ! 2
            in if topic_type = ''motion'' then
                 (case utf8_decode (payload msg) of
                    None \<Rightarrow> w
                  | Some s \<Rightarrow>
                      if strip s = text_of ''detected''
                      then start_video_capture e device_id w
                      else w)
               else if topic_type = ''stream'' then
                 (if device_id \<in> dom (active_captures w)
                  then process_stream_message e device_id (payload msg) w
                  else w)
               else w))"

text \<open>The service handles the messages one after the other, each with its own answers.\<close>

fun run :: "(env \<times> mqtt_message) list \<Rightarrow> world \<Rightarrow> world" where
  "run [] w = w"
| "run ((e, msg) # rest) w = run rest (on_message e msg w)"

subsection \<open>The notification handler\<close>

text \<open>
  \<^verbatim>\<open>motion_notification_handler.py\<close> has its own tables: a device has an owner and an
  \<^verbatim>\<open>isActive\<close> flag, and the lookup joins \<^verbatim>\<open>users\<close>. Its functions that share a name
  with the capture service carry the prefix \<open>nh\<close>.
\<close>

record nh_device_row =
  nd_id :: nat
  nd_ownerId :: nat
  nd_name :: string
  nd_deviceId :: string
  nd_isActive :: nat

record nh_user_row =
  u_id :: nat
  u_email :: string
  u_name :: string

record nh_device_info =
  i_id :: nat
  i_ownerId :: nat
  i_name :: string
  i_deviceId :: string
  i_email :: string
  i_userName :: string

text \<open>\<^verbatim>\<open>NOTIFICATION_API_URL\<close> and \<^verbatim>\<open>NOTIFICATION_API_KEY\<close>.\<close>

record nh_config =
  api_url :: string
  api_key :: string

text \<open>
  What \<^verbatim>\<open>requests.post\<close> does: it raises, or it returns a response with a status code
  and a body that is a JSON object or not.
\<close>

datatype http_outcome =
    Http_exception
  | Http_response nat bool

text \<open>A push request: the device key, the device name and the device identifier.\<close>

datatype nh_effect = Http_post nat string string

record nh_world =
  nh_devices :: "nh_device_row list"
  nh_users :: "nh_user_row list"
  nh_motionEvents :: "motion_event_row list"
  nh_event_seq :: nat
  nh_trace :: "nh_effect list"

text \<open>
  The answers of the outside during one callback of the handler: \<open>json_ok\<close> says that
  \<^verbatim>\<open>json.loads(payload)\<close> returns; the three database flags belong to
  \<^verbatim>\<open>get_device_info\<close>, \<^verbatim>\<open>record_motion_event\<close> and \<^verbatim>\<open>mark_notification_sent\<close>.
\<close>

record nh_env =
  nh_db_now :: nat
  nh_lookup_ok :: bool
  nh_record_ok :: bool
  nh_mark_ok :: bool
  json_ok :: bool
  http :: http_outcome

definition nh_get_device_info :: "nh_env \<Rightarrow> string \<Rightarrow> nh_world \<Rightarrow> nh_device_info option" where
  "nh_get_device_info e device_id w =
     (if \<not> nh_lookup_ok e then None
      else
        (case concat (map (\<lambda>d. map (\<lambda>u. (d, u))
                      (filter (\<lambda>u. nd_ownerId d = u_id u) (nh_users w)))
                (filter (\<lambda>d. nd_deviceId d = device_id \<and> nd_isActive d = 1)
                   (nh_devices w))) of
           [] \<Rightarrow> None
         | (d, u) # _ \<Rightarrow>
             Some \<lparr>i_id = nd_id d, i_ownerId = nd_ownerId d, i_name = nd_name d,
                   i_deviceId = nd_deviceId d, i_email = u_email u,
                   i_userName = u_name u\<rparr>))"

text \<open>\<^verbatim>\<open>record_motion_event\<close>: inserts the event with \<^verbatim>\<open>notificationSent = 0\<close>.\<close>

definition record_motion_event :: "nh_env \<Rightarrow> nat \<Rightarrow> nh_world \<Rightarrow> nat option \<times> nh_world" where
  "record_motion_event e dev w =
     (if \<not> nh_record_ok e then (None, w)
      else
        (let new_id = Suc (nh_event_seq w);
             row = \<lparr>e_id = new_id, e_deviceId = dev, e_detectedAt = nh_db_now e,
                    e_notificationSent = 0\<rparr>
         in (Some new_id,
             w\<lparr>nh_motionEvents := nh_motionEvents w @ [row],
               nh_event_seq := new_id\<rparr>)))"

definition mark_notification_sent :: "nh_env \<Rightarrow> nat \<Rightarrow> nh_world \<Rightarrow> nh_world" where
  "mark_notification_sent e event_id w =
     (if \<not> nh_mark_ok e then w
      else
        w\<lparr>nh_motionEvents :=
            map (\<lambda>r. if e_id r = event_id then r\<lparr>e_notificationSent := 1\<rparr> else r)
              (nh_motionEvents w)\<rparr>)"

text \<open>
  \<^verbatim>\<open>send_push_notification_to_device_users\<close>: \<open>True\<close> only for status 200 with a body
  that \<^verbatim>\<open>response.json()\<close> and \<^verbatim>\<open>result.get\<close> accept; every exception gives \<open>False\<close>.
\<close>

definition send_push_notification_to_device_users ::
  "nh_config \<Rightarrow> nh_env \<Rightarrow> nat \<Rightarrow> string \<Rightarrow> string \<Rightarrow> nh_world \<Rightarrow> bool \<times> nh_world" where
  "send_push_notification_to_device_users cfg e device_key device_name device_id w =
     (if api_url cfg = [] \<or> api_key cfg = [] then (False, w)
      else
        (let w1 = w\<lparr>nh_trace := nh_trace w
                      @ [Http_post device_key device_name device_id]\<rparr>
         in case http e of
              Http_exception \<Rightarrow> (False, w1)
            | Http_response status_code body_ok \<Rightarrow>
                if status_code = 200 then (body_ok, w1) else (False, w1)))"

definition nh_on_message :: "nh_config \<Rightarrow> nh_env \<Rightarrow> mqtt_message \<Rightarrow> nh_world \<Rightarrow> nh_world" where
  "nh_on_message cfg e msg w =
     (case utf8_decode (payload msg) of
        None \<Rightarrow> w
      | Some decoded \<Rightarrow>
          (let topic_parts = str_split CHR ''/'' (topic msg)
           in if length topic_parts \<noteq> 3 \<or> topic_parts ! 0 \<noteq> ''device''
                 \<or> topic_parts ! 2 \<noteq> ''motion''
              then w
              else
                (let device_id_str = topic_parts ! 1
                 in if \<not> json_ok e then w
                    else
                      (case nh_get_device_info e device_id_str w of
                         None \<Rightarrow> w
                       | Some device_info \<Rightarrow>
                           (case record_motion_event e (i_id device_info) w of
                              (None, w1) \<Rightarrow> w1
                            | (Some event_id, w1) \<Rightarrow>
                                if event_id = 0 then w1
                                else
                                  (case send_push_notification_to_device_users cfg e
                                          (i_id device_info) (i_name device_info)
                                          (i_deviceId device_info) w1 of
                                     (True, w2) \<Rightarrow> mark_notification_sent e event_id w2
                                   | (False, w2) \<Rightarrow> w2))))))"

subsection \<open>Feeding frames\<close>

text \<open>
  \<open>frame_for device_id (e, msg)\<close>: the message is routed to the stream path of the
  device and its payload yields a frame. \<open>arrival_frames\<close> lists the frames of a
  sequence of messages in the order of arrival.
\<close>

definition frame_for :: "string \<Rightarrow> env \<times> mqtt_message \<Rightarrow> bool" where
  "frame_for device_id em =
     (let topic_parts = str_split CHR ''/'' (topic (snd em))
      in 3 \<le> length topic_parts \<and> topic_parts ! 1 = device_id
         \<and> topic_parts ! 2 = ''stream'' \<and> frame (fst em) \<noteq> None)"

fun arrival_frames :: "(env \<times> mqtt_message) list \<Rightarrow> bytes list" where
  "arrival_frames [] = []"
| "arrival_frames ((e, msg) # rest) =
     (case frame e of
        None \<Rightarrow> arrival_frames rest
      | Some image_data \<Rightarrow> image_data # arrival_frames rest)"

subsection \<open>Concrete worlds for the examples\<close>

text \<open>
  One known device \<^verbatim>\<open>cam1\<close> with key 7, no session, empty tables; an environment in
  which every collaborator answers; the same world with a session open for \<^verbatim>\<open>cam1\<close>
  that has buffered one frame.
\<close>

definition example_world :: world where
  "example_world =
     \<lparr>active_captures = Map.empty,
      devices = [\<lparr>d_id = 7, d_userId = 1, d_name = ''nest'', d_deviceId = ''cam1''\<rparr>],
      motionEvents = [], event_seq = 100, motionVideos = [], video_seq = 0,
      files = Map.empty, trace = []\<rparr>"

definition example_env :: env where
  "example_env =
     \<lparr>clock = 2, stamp = ''20240101_120000'', db_now = 1000, lookup_ok = True,
      event_ok = True, save_ok = True, cleanup_ok = True, ffmpeg = Some ''mjpeg'',
      frame = Some ''f2''\<rparr>"

definition open_world :: world where
  "open_world =
     example_world\<lparr>active_captures :=
       [''cam1'' \<mapsto> \<lparr>frames = [''f1''], start_time = 0, motion_event_id = 100,
                      device_db_id = 7\<rparr>]\<rparr>"

definition motion_message :: "bytes \<Rightarrow> mqtt_message" where
  "motion_message p = \<lparr>topic = ''device/cam1/motion'', payload = p\<rparr>"

definition stream_message :: mqtt_message where
  "stream_message = \<lparr>topic = ''device/cam1/stream'', payload = ''{\"image\": \"ZjI=\"}''\<rparr>"

text \<open>
  The world of the notification handler: the same device, active, owned by user 1; a
  configured push service; an environment in which the database answers and the push
  request ends as given.
\<close>

definition nh_example_world :: nh_world where
  "nh_example_world =
     \<lparr>nh_devices = [\<lparr>nd_id = 7, nd_ownerId = 1, nd_name = ''nest'', nd_deviceId = ''cam1'',
                      nd_isActive = 1\<rparr>],
      nh_users = [\<lparr>u_id = 1, u_email = ''a@b.c'', u_name = ''ann''\<rparr>],
      nh_motionEvents = [], nh_event_seq = 100, nh_trace = []\<rparr>"

definition nh_example_config :: nh_config where
  "nh_example_config = \<lparr>api_url = ''http://localhost/push'', api_key = ''key''\<rparr>"

definition nh_example_env :: "http_outcome \<Rightarrow> nh_env" where
  "nh_example_env h =
     \<lparr>nh_db_now = 1000, nh_lookup_ok = True, nh_record_ok = True, nh_mark_ok = True,
      json_ok = True, http = h\<rparr>"

text \<open>
  The world with a session for \<^verbatim>\<open>cam1\<close> that has buffered five frames.
\<close>

definition five_world :: world where
  "five_world =
     example_world\<lparr>active_captures :=
       [''cam1'' \<mapsto> \<lparr>frames = [''f1'', ''f2'', ''f3'', ''f4'', ''f5''], start_time = 0,
                      motion_event_id = 100, device_db_id = 7\<rparr>]\<rparr>"

text \<open>
  The world right after a trigger for \<^verbatim>\<open>cam1\<close>: the session is open, has no frames
  and carries event 101.
\<close>

definition started_world :: world where
  "started_world =
     example_world\<lparr>active_captures :=
         [''cam1'' \<mapsto> \<lparr>frames = [], start_time = 0, motion_event_id = 101,
                        device_db_id = 7\<rparr>],
       motionEvents := [\<lparr>e_id = 101, e_deviceId = 7, e_detectedAt = 1000,
                         e_notificationSent = 1\<rparr>],
       event_seq := 101,
       trace := [Sql (Select_device ''cam1''), Sql (Insert_motion_event 7),
                 Publish ''device/cam1/control'' ''start'']\<rparr>"

text \<open>
  A device at the cap: the world with the five-frame session of \<^verbatim>\<open>cam1\<close> and 49 stored
  videos of device 7, with the identifiers and capture times 1 to 49.
\<close>

definition stored_video :: "nat \<Rightarrow> video_row" where
  "stored_video i =
     \<lparr>v_id = i, v_deviceId = 7, v_motionEventId = i,
      v_filename = ''cam1_'' @ replicate i CHR ''0'' @ ''.mjpeg'',
      v_filepath = VIDEO_DIR @ ''/cam1_'' @ replicate i CHR ''0'' @ ''.mjpeg'',
      v_duration = 5, v_filesize = 5, v_capturedAt = i\<rparr>"

definition full_world :: world where
  "full_world = five_world\<lparr>motionVideos := map stored_video [1..<50], video_seq := 49\<rparr>"

section \<open>Properties\<close>

lemmas example_defs =
  example_world_def example_env_def open_world_def five_world_def started_world_def
  motion_message_def stream_message_def

subsection \<open>Topics and payloads\<close>

lemma str_split_not_Nil: "str_split c s \<noteq> []"
  by (induction s) (auto split: list.splits)

lemma str_split_append:
  "str_split c (xs @ c # ys) = str_split c xs @ str_split c ys"
proof (induction xs)
  case Nil
  show ?case by simp
next
  case (Cons x xs)
  obtain p ps where sp: "str_split c xs = p # ps"
    using str_split_not_Nil [of c xs] by (cases "str_split c xs") auto
  show ?case using Cons sp by simp
qed

lemma detected_payload:
  "map_option strip (utf8_decode ''detected'') = Some (text_of ''detected'')"
  by (simp add: utf8_decode_def strip_def is_space_def text_of_def)

lemma on_message_motion:
  assumes "str_split CHR ''/'' (topic msg) = ns # device_id # ''motion'' # rest"
  shows "on_message e msg w =
           (case utf8_decode (payload msg) of
              None \<Rightarrow> w
            | Some s \<Rightarrow>
                if strip s = text_of ''detected''
                then start_video_capture e device_id w else w)"
  using assms by (simp add: on_message_def Let_def)

subsection \<open>Triggers\<close>

lemma start_video_capture_success:
  assumes "lookup_ok e" and "event_ok e"
    and "find (\<lambda>d. d_deviceId d = device_id) (devices w) = Some info"
  shows "start_video_capture e device_id w =
           w\<lparr>active_captures := (active_captures w)(device_id \<mapsto>
                \<lparr>frames = [], start_time = clock e,
                 motion_event_id = Suc (event_seq w), device_db_id = d_id info\<rparr>),
             motionEvents := motionEvents w @
                [\<lparr>e_id = Suc (event_seq w), e_deviceId = d_id info,
                  e_detectedAt = db_now e, e_notificationSent = 1\<rparr>],
             event_seq := Suc (event_seq w),
             trace := trace w @
                [Sql (Select_device device_id), Sql (Insert_motion_event (d_id info)),
                 Publish (''device/'' @ device_id @ ''/control'') ''start'']\<rparr>"
  using assms
  by (simp add: start_video_capture_def get_device_info_def create_motion_event_def Let_def)

lemma start_video_capture_failure:
  assumes "\<not> lookup_ok e \<or> find (\<lambda>d. d_deviceId d = device_id) (devices w) = None
           \<or> \<not> event_ok e"
  shows "start_video_capture e device_id w =
           w\<lparr>trace := trace w @
                (if lookup_ok e then [Sql (Select_device device_id)] else [])\<rparr>"
  using assms
  by (auto simp add: start_video_capture_def get_device_info_def create_motion_event_def
        Let_def split: option.splits)

text \<open>
  C1, as the code has it. A motion trigger that arrives while a capture session is open
  for the same device is not rejected. When the device lookup and the creation of the
  motion event succeed, the open session is replaced by a fresh one (no frames, the
  current time, the new event identifier), a new motion event is inserted and the start
  command is published. When the lookup finds nothing or the event cannot be created,
  the session, the tables and the files stay as they were and nothing is published.
\<close>

theorem trigger_on_open_session:
  assumes "str_split CHR ''/'' (topic msg) = ns # device_id # ''motion'' # rest"
    and "map_option strip (utf8_decode (payload msg)) = Some (text_of ''detected'')"
    and "active_captures w device_id = Some c"
  shows "(lookup_ok e \<and> event_ok e
          \<and> find (\<lambda>d. d_deviceId d = device_id) (devices w) = Some info \<longrightarrow>
          on_message e msg w =
            w\<lparr>active_captures := (active_captures w)(device_id \<mapsto>
                 \<lparr>frames = [], start_time = clock e,
                  motion_event_id = Suc (event_seq w), device_db_id = d_id info\<rparr>),
              motionEvents := motionEvents w @
                 [\<lparr>e_id = Suc (event_seq w), e_deviceId = d_id info,
                   e_detectedAt = db_now e, e_notificationSent = 1\<rparr>],
              event_seq := Suc (event_seq w),
              trace := trace w @
                 [Sql (Select_device device_id), Sql (Insert_motion_event (d_id info)),
                  Publish (''device/'' @ device_id @ ''/control'') ''start'']\<rparr>)
       \<and> (\<not> lookup_ok e \<or> find (\<lambda>d. d_deviceId d = device_id) (devices w) = None
          \<or> \<not> event_ok e \<longrightarrow>
          on_message e msg w =
            w\<lparr>trace := trace w @
                 (if lookup_ok e then [Sql (Select_device device_id)] else [])\<rparr>)"
proof -
  obtain s where s: "utf8_decode (payload msg) = Some s" "strip s = text_of ''detected''"
    using assms(2) by (cases "utf8_decode (payload msg)") auto
  have start: "on_message e msg w = start_video_capture e device_id w"
    using on_message_motion [OF assms(1), of e w] s by simp
  show ?thesis
    using start start_video_capture_success [of e device_id w info]
      start_video_capture_failure [of e device_id w]
    by auto
qed

theorem trigger_on_open_session_witness:
  "active_captures open_world ''cam1''
     = Some \<lparr>frames = [''f1''], start_time = 0, motion_event_id = 100, device_db_id = 7\<rparr>
   \<and> on_message example_env (motion_message ''detected'') open_world =
       open_world\<lparr>active_captures :=
           [''cam1'' \<mapsto> \<lparr>frames = [], start_time = 2, motion_event_id = 101,
                          device_db_id = 7\<rparr>],
         motionEvents := [\<lparr>e_id = 101, e_deviceId = 7, e_detectedAt = 1000,
                           e_notificationSent = 1\<rparr>],
         event_seq := 101,
         trace := [Sql (Select_device ''cam1''), Sql (Insert_motion_event 7),
                   Publish ''device/cam1/control'' ''start'']\<rparr>"
  using trigger_on_open_session [of "motion_message ''detected''" "''device''" "''cam1''" "[]"
      open_world "\<lparr>frames = [''f1''], start_time = 0, motion_event_id = 100, device_db_id = 7\<rparr>"
      example_env "\<lparr>d_id = 7, d_userId = 1, d_name = ''nest'', d_deviceId = ''cam1''\<rparr>"]
    detected_payload
  by (simp add: example_defs)

text \<open>
  The claim as the specification states it fails: the session of \<^verbatim>\<open>cam1\<close> holds the
  frame \<^verbatim>\<open>f1\<close> and event 100; after a second trigger the buffer is empty, the session
  carries event 101, a second event row exists and a start command has been published.
\<close>

theorem trigger_on_open_session_counterexample:
  "frames (the (active_captures open_world ''cam1'')) = [''f1'']
   \<and> frames (the (active_captures
        (on_message example_env (motion_message ''detected'') open_world) ''cam1'')) = []
   \<and> motion_event_id (the (active_captures
        (on_message example_env (motion_message ''detected'') open_world) ''cam1'')) = 101
   \<and> length (motionEvents (on_message example_env (motion_message ''detected'') open_world))
       = Suc (length (motionEvents open_world))
   \<and> trace (on_message example_env (motion_message ''detected'') open_world)
       = trace open_world @ [Sql (Select_device ''cam1''), Sql (Insert_motion_event 7),
                             Publish ''device/cam1/control'' ''start'']"
  by (simp add: example_defs on_message_def Let_def utf8_decode_def strip_def is_space_def
        text_of_def start_video_capture_def get_device_info_def create_motion_event_def)

lemmas nh_example_defs = nh_example_world_def nh_example_config_def nh_example_env_def

text \<open>
  C8. A trigger whose device lookup returns nothing (no connection, or no row for the
  device), or whose motion event cannot be created, leaves no partial state: the world
  after the message is the world before it, but for the lookup statement in the trace.
  No session is entered in \<^verbatim>\<open>active_captures\<close>, no event row and no video row is
  written, ffmpeg is not run and no start command is published.
\<close>

theorem failed_trigger_leaves_no_session:
  assumes "str_split CHR ''/'' (topic msg) = ns # device_id # ''motion'' # rest"
    and "map_option strip (utf8_decode (payload msg)) = Some (text_of ''detected'')"
    and "\<not> lookup_ok e \<or> find (\<lambda>d. d_deviceId d = device_id) (devices w) = None
         \<or> \<not> event_ok e"
  shows "on_message e msg w =
           w\<lparr>trace := trace w @
                (if lookup_ok e then [Sql (Select_device device_id)] else [])\<rparr>"
proof -
  obtain s where s: "utf8_decode (payload msg) = Some s" "strip s = text_of ''detected''"
    using assms(2) by (cases "utf8_decode (payload msg)") auto
  have "on_message e msg w = start_video_capture e device_id w"
    using on_message_motion [OF assms(1), of e w] s by simp
  then show ?thesis
    using start_video_capture_failure [OF assms(3)] by simp
qed

theorem failed_trigger_leaves_no_session_witness:
  "find (\<lambda>d. d_deviceId d = ''cam9'') (devices example_world) = None
   \<and> on_message example_env \<lparr>topic = ''device/cam9/motion'', payload = ''detected''\<rparr>
         example_world
       = example_world\<lparr>trace := [Sql (Select_device ''cam9'')]\<rparr>
   \<and> on_message (example_env\<lparr>event_ok := False\<rparr>) (motion_message ''detected'') example_world
       = example_world\<lparr>trace := [Sql (Select_device ''cam1'')]\<rparr>"
  using failed_trigger_leaves_no_session
      [of "\<lparr>topic = ''device/cam9/motion'', payload = ''detected''\<rparr>" "''device''" "''cam9''"
          "[]" example_env example_world]
    failed_trigger_leaves_no_session
      [of "motion_message ''detected''" "''device''" "''cam1''"
          "[]" "example_env\<lparr>event_ok := False\<rparr>" example_world]
    detected_payload
  by (simp add: example_defs)

subsection \<open>Payloads of motion messages\<close>

lemma nh_on_message_bad_payload:
  "utf8_decode (payload msg) = None \<or> \<not> json_ok e' \<Longrightarrow> nh_on_message cfg e' msg w' = w'"
  by (auto simp add: nh_on_message_def Let_def split: option.splits)

lemma motion_payload: "map_option strip (utf8_decode ''motion'') \<noteq> Some (text_of ''detected'')"
  by (simp add: utf8_decode_def strip_def is_space_def text_of_def)

text \<open>
  C4, as the code has it. The payload of a motion message is not arbitrary. The capture
  service starts a session (for a known device with no open session, when the event can
  be created) exactly when the payload, decoded as UTF-8 and stripped of surrounding
  whitespace, is \<^verbatim>\<open>detected\<close>; with any other payload the message changes nothing. The
  notification handler drops every motion message whose payload is not UTF-8 or does not
  parse as JSON.
\<close>

theorem motion_payload_must_be_detected:
  assumes "str_split CHR ''/'' (topic msg) = ns # device_id # ''motion'' # rest"
    and "active_captures w device_id = None"
    and "lookup_ok e" and "event_ok e"
    and "find (\<lambda>d. d_deviceId d = device_id) (devices w) = Some info"
  shows "(map_option strip (utf8_decode (payload msg)) = Some (text_of ''detected'') \<longrightarrow>
            active_captures (on_message e msg w) device_id =
              Some \<lparr>frames = [], start_time = clock e,
                    motion_event_id = Suc (event_seq w), device_db_id = d_id info\<rparr>)
       \<and> (map_option strip (utf8_decode (payload msg)) \<noteq> Some (text_of ''detected'') \<longrightarrow>
            on_message e msg w = w)
       \<and> (utf8_decode (payload msg) = None \<or> \<not> json_ok e' \<longrightarrow>
            nh_on_message cfg e' msg w' = w')"
proof (intro conjI impI)
  assume p: "map_option strip (utf8_decode (payload msg)) = Some (text_of ''detected'')"
  then obtain s where s: "utf8_decode (payload msg) = Some s" "strip s = text_of ''detected''"
    by (cases "utf8_decode (payload msg)") auto
  have "on_message e msg w = start_video_capture e device_id w"
    using on_message_motion [OF assms(1), of e w] s by simp
  then show "active_captures (on_message e msg w) device_id =
              Some \<lparr>frames = [], start_time = clock e,
                    motion_event_id = Suc (event_seq w), device_db_id = d_id info\<rparr>"
    using start_video_capture_success [OF assms(3,4,5)] by simp
next
  assume "map_option strip (utf8_decode (payload msg)) \<noteq> Some (text_of ''detected'')"
  then show "on_message e msg w = w"
    using on_message_motion [OF assms(1), of e w]
    by (cases "utf8_decode (payload msg)") auto
next
  assume "utf8_decode (payload msg) = None \<or> \<not> json_ok e'"
  then show "nh_on_message cfg e' msg w' = w'"
    by (rule nh_on_message_bad_payload)
qed

theorem motion_payload_must_be_detected_witness:
  "active_captures example_world ''cam1'' = None
   \<and> active_captures (on_message example_env (motion_message ''detected'') example_world)
        ''cam1''
       = Some \<lparr>frames = [], start_time = 2, motion_event_id = 101, device_db_id = 7\<rparr>
   \<and> on_message example_env (motion_message ''motion'') example_world = example_world
   \<and> nh_on_message nh_example_config ((nh_example_env Http_exception)\<lparr>json_ok := False\<rparr>)
        (motion_message ''detected'') nh_example_world = nh_example_world"
  using motion_payload_must_be_detected
      [of "motion_message ''detected''" "''device''" "''cam1''" "[]" example_world example_env
          "\<lparr>d_id = 7, d_userId = 1, d_name = ''nest'', d_deviceId = ''cam1''\<rparr>"
          "(nh_example_env Http_exception)\<lparr>json_ok := False\<rparr>" nh_example_config
          nh_example_world]
    motion_payload_must_be_detected
      [of "motion_message ''motion''" "''device''" "''cam1''" "[]" example_world example_env
          "\<lparr>d_id = 7, d_userId = 1, d_name = ''nest'', d_deviceId = ''cam1''\<rparr>"
          "(nh_example_env Http_exception)\<lparr>json_ok := False\<rparr>" nh_example_config
          nh_example_world]
    detected_payload motion_payload
  by (simp add: example_defs nh_example_defs)

text \<open>
  The claim as the specification states it fails: \<^verbatim>\<open>cam1\<close> is known and has no open
  session, and a motion message with the payload \<^verbatim>\<open>motion\<close> starts no session and
  changes nothing.
\<close>

theorem arbitrary_payload_counterexample:
  "find (\<lambda>d. d_deviceId d = ''cam1'') (devices example_world)
     = Some \<lparr>d_id = 7, d_userId = 1, d_name = ''nest'', d_deviceId = ''cam1''\<rparr>
   \<and> active_captures example_world ''cam1'' = None
   \<and> on_message example_env (motion_message ''motion'') example_world = example_world
   \<and> active_captures (on_message example_env (motion_message ''motion'') example_world)
        ''cam1'' = None"
  by (simp add: example_defs on_message_def Let_def utf8_decode_def strip_def is_space_def
        text_of_def)


subsection \<open>The router\<close>

lemma on_message_extra_segments:
  assumes "3 \<le> length (str_split CHR ''/'' (topic msg))"
  shows "on_message e (msg\<lparr>topic := topic msg @ CHR ''/'' # extra\<rparr>) w = on_message e msg w"
proof -
  let ?parts = "str_split CHR ''/'' (topic msg)"
  have sp: "str_split CHR ''/'' (topic msg @ CHR ''/'' # extra)
              = ?parts @ str_split CHR ''/'' extra"
    by (rule str_split_append)
  have n1: "(?parts @ str_split CHR ''/'' extra) ! Suc 0 = ?parts ! Suc 0"
    and n2: "(?parts @ str_split CHR ''/'' extra) ! 2 = ?parts ! 2"
    using assms by (simp_all add: nth_append)
  show ?thesis
    using assms by (simp add: on_message_def Let_def sp n1 n2)
qed

lemma nh_on_message_bad_topic:
  assumes "length (str_split CHR ''/'' (topic msg)) \<noteq> 3
           \<or> str_split CHR ''/'' (topic msg) ! 0 \<noteq> ''device''
           \<or> str_split CHR ''/'' (topic msg) ! 2 \<noteq> ''motion''"
  shows "nh_on_message cfg e' msg w' = w'"
  using assms by (auto simp add: nh_on_message_def Let_def split: option.splits)

text \<open>
  C5, as the code has it. A message whose topic has fewer than three segments is dropped
  and changes nothing, and so is a message whose third segment is neither
  \<^verbatim>\<open>motion\<close> nor \<^verbatim>\<open>stream\<close>. The capture service does not drop a topic with more
  than three segments: the segments after the third are ignored and the message is
  handled as the one with the first three. The notification handler drops every topic
  that does not have exactly three segments, and every kind other than \<^verbatim>\<open>motion\<close>.
\<close>

theorem router_drops_short_and_unknown:
  "(length (str_split CHR ''/'' (topic msg)) < 3 \<longrightarrow> on_message e msg w = w)
   \<and> (3 \<le> length (str_split CHR ''/'' (topic msg))
        \<and> str_split CHR ''/'' (topic msg) ! 2 \<noteq> ''motion''
        \<and> str_split CHR ''/'' (topic msg) ! 2 \<noteq> ''stream'' \<longrightarrow>
      on_message e msg w = w)
   \<and> (3 \<le> length (str_split CHR ''/'' (topic msg)) \<longrightarrow>
      on_message e (msg\<lparr>topic := topic msg @ CHR ''/'' # extra\<rparr>) w = on_message e msg w)
   \<and> (length (str_split CHR ''/'' (topic msg)) \<noteq> 3
        \<or> str_split CHR ''/'' (topic msg) ! 2 \<noteq> ''motion'' \<longrightarrow>
      nh_on_message cfg e' msg w' = w')"
proof (intro conjI impI)
  assume "length (str_split CHR ''/'' (topic msg)) < 3"
  then show "on_message e msg w = w"
    by (simp add: on_message_def Let_def)
next
  assume "3 \<le> length (str_split CHR ''/'' (topic msg))
        \<and> str_split CHR ''/'' (topic msg) ! 2 \<noteq> ''motion''
        \<and> str_split CHR ''/'' (topic msg) ! 2 \<noteq> ''stream''"
  then show "on_message e msg w = w"
    by (simp add: on_message_def Let_def)
next
  assume "3 \<le> length (str_split CHR ''/'' (topic msg))"
  then show "on_message e (msg\<lparr>topic := topic msg @ CHR ''/'' # extra\<rparr>) w
               = on_message e msg w"
    by (rule on_message_extra_segments)
next
  assume "length (str_split CHR ''/'' (topic msg)) \<noteq> 3
        \<or> str_split CHR ''/'' (topic msg) ! 2 \<noteq> ''motion''"
  then show "nh_on_message cfg e' msg w' = w'"
    using nh_on_message_bad_topic [of msg cfg e' w'] by blast
qed

theorem router_drops_short_and_unknown_witness:
  "length (str_split CHR ''/'' ''device/cam1'') = 2
   \<and> on_message example_env \<lparr>topic = ''device/cam1'', payload = ''detected''\<rparr> example_world
       = example_world
   \<and> on_message example_env \<lparr>topic = ''device/cam1/status'', payload = ''detected''\<rparr>
        example_world = example_world
   \<and> on_message example_env \<lparr>topic = ''device/cam1/motion/extra'', payload = ''detected''\<rparr>
        example_world
       = on_message example_env (motion_message ''detected'') example_world
   \<and> nh_on_message nh_example_config (nh_example_env Http_exception)
        \<lparr>topic = ''device/cam1/motion/extra'', payload = ''{}''\<rparr> nh_example_world
       = nh_example_world"
  using router_drops_short_and_unknown
      [of "\<lparr>topic = ''device/cam1'', payload = ''detected''\<rparr>" example_env example_world
          "''extra''" nh_example_config "nh_example_env Http_exception" nh_example_world]
    router_drops_short_and_unknown
      [of "\<lparr>topic = ''device/cam1/status'', payload = ''detected''\<rparr>" example_env
          example_world "''extra''" nh_example_config "nh_example_env Http_exception"
          nh_example_world]
    router_drops_short_and_unknown
      [of "motion_message ''detected''" example_env example_world "''extra''"
          nh_example_config "nh_example_env Http_exception" nh_example_world]
    router_drops_short_and_unknown
      [of "\<lparr>topic = ''device/cam1/motion/extra'', payload = ''{}''\<rparr>" example_env
          example_world "''extra''" nh_example_config "nh_example_env Http_exception"
          nh_example_world]
  by (simp add: example_defs)

text \<open>
  The claim as the specification states it fails: a topic of four segments is not
  dropped by the capture service; the message opens a session for \<^verbatim>\<open>cam1\<close>.
\<close>

theorem four_segment_topic_counterexample:
  "length (str_split CHR ''/'' ''device/cam1/motion/extra'') = 4
   \<and> active_captures example_world ''cam1'' = None
   \<and> active_captures
        (on_message example_env \<lparr>topic = ''device/cam1/motion/extra'', payload = ''detected''\<rparr>
           example_world) ''cam1''
       = Some \<lparr>frames = [], start_time = 2, motion_event_id = 101, device_db_id = 7\<rparr>
   \<and> on_message example_env \<lparr>topic = ''device/cam1/motion/extra'', payload = ''detected''\<rparr>
        example_world \<noteq> example_world"
  by (simp add: example_defs on_message_def Let_def utf8_decode_def strip_def is_space_def
        text_of_def start_video_capture_def get_device_info_def create_motion_event_def)

subsection \<open>The notification flag\<close>

lemma record_motion_event_inserts_unsent:
  "record_motion_event e dev w =
     (if nh_record_ok e
      then (Some (Suc (nh_event_seq w)),
            w\<lparr>nh_motionEvents := nh_motionEvents w @
                 [\<lparr>e_id = Suc (nh_event_seq w), e_deviceId = dev,
                   e_detectedAt = nh_db_now e, e_notificationSent = 0\<rparr>],
              nh_event_seq := Suc (nh_event_seq w)\<rparr>)
      else (None, w))"
  by (simp add: record_motion_event_def Let_def)

lemma mark_fresh_event:
  assumes "\<forall>r \<in> set rows. e_id r \<noteq> n"
  shows "map (\<lambda>r. if e_id r = n then r\<lparr>e_notificationSent := 1\<rparr> else r) rows = rows"
  using assms by (induction rows) auto

lemma send_push_result:
  "fst (send_push_notification_to_device_users cfg e k n d w)
     = (api_url cfg \<noteq> [] \<and> api_key cfg \<noteq> [] \<and> http e = Http_response 200 True)"
  "nh_motionEvents (snd (send_push_notification_to_device_users cfg e k n d w))
     = nh_motionEvents w"
  by (auto simp add: send_push_notification_to_device_users_def Let_def
        split: http_outcome.splits)

text \<open>
  C10. In the notification handler a motion event is inserted with
  \<^verbatim>\<open>notificationSent = 0\<close>. For a well-formed motion message of a known device whose
  event can be recorded, the table afterwards is the old table followed by the new event,
  and its flag is 1 exactly when the push service is configured, the request returned
  status 200 with a body the handler accepts, and the update went through; when the
  service is not configured, the status is not 200 or the request raised, the event is
  there with the flag 0. The hypothesis on the identifiers says that the table holds no
  identifier beyond the last one handed out.
\<close>

theorem notification_sent_flag:
  assumes "\<forall>r \<in> set (nh_motionEvents w). e_id r \<le> nh_event_seq w"
    and "utf8_decode (payload msg) = Some decoded"
    and "str_split CHR ''/'' (topic msg) = [''device'', device_id, ''motion'']"
    and "json_ok e"
    and "nh_get_device_info e device_id w = Some info"
    and "nh_record_ok e"
  shows "nh_motionEvents (nh_on_message cfg e msg w) =
           nh_motionEvents w @
             [\<lparr>e_id = Suc (nh_event_seq w), e_deviceId = i_id info,
               e_detectedAt = nh_db_now e,
               e_notificationSent =
                 (if api_url cfg \<noteq> [] \<and> api_key cfg \<noteq> []
                     \<and> http e = Http_response 200 True \<and> nh_mark_ok e
                  then 1 else 0)\<rparr>]"
proof -
  let ?n = "Suc (nh_event_seq w)"
  let ?row = "\<lparr>e_id = ?n, e_deviceId = i_id info, e_detectedAt = nh_db_now e,
                e_notificationSent = 0\<rparr>"
  let ?w1 = "w\<lparr>nh_motionEvents := nh_motionEvents w @ [?row], nh_event_seq := ?n\<rparr>"
  let ?send = "send_push_notification_to_device_users cfg e (i_id info) (i_name info)
                 (i_deviceId info) ?w1"
  let ?accepted = "api_url cfg \<noteq> [] \<and> api_key cfg \<noteq> [] \<and> http e = Http_response 200 True"
  have rec: "record_motion_event e (i_id info) w = (Some ?n, ?w1)"
    using assms(6) by (simp add: record_motion_event_inserts_unsent)
  have step: "nh_on_message cfg e msg w =
                (if fst ?send then mark_notification_sent e ?n (snd ?send) else snd ?send)"
    using assms(2-5) rec
    by (simp add: nh_on_message_def Let_def split: prod.splits bool.splits)
  have fresh: "\<forall>r \<in> set (nh_motionEvents w). e_id r \<noteq> ?n"
    using assms(1) by auto
  have ev: "nh_motionEvents (snd ?send) = nh_motionEvents w @ [?row]"
    by (simp add: send_push_result)
  show ?thesis
  proof (cases "?accepted \<and> nh_mark_ok e")
    case True
    then have "nh_motionEvents (nh_on_message cfg e msg w)
                = map (\<lambda>r. if e_id r = ?n then r\<lparr>e_notificationSent := 1\<rparr> else r)
                    (nh_motionEvents w @ [?row])"
      using step ev by (simp add: send_push_result mark_notification_sent_def)
    then show ?thesis
      using True mark_fresh_event [OF fresh] by simp
  next
    case False
    then have "nh_motionEvents (nh_on_message cfg e msg w) = nh_motionEvents w @ [?row]"
      using step ev by (auto simp add: send_push_result mark_notification_sent_def)
    then show ?thesis
      using False by auto
  qed
qed

lemma nh_lookup_example:
  "nh_get_device_info (nh_example_env h) ''cam1'' nh_example_world
     = Some \<lparr>i_id = 7, i_ownerId = 1, i_name = ''nest'', i_deviceId = ''cam1'',
             i_email = ''a@b.c'', i_userName = ''ann''\<rparr>"
  by (simp add: nh_get_device_info_def nh_example_defs)

lemma json_payload: "utf8_decode ''{}'' = Some [123, 125]"
  by (simp add: utf8_decode_def)

theorem notification_sent_flag_witness:
  "nh_motionEvents (nh_on_message nh_example_config (nh_example_env (Http_response 200 True))
       \<lparr>topic = ''device/cam1/motion'', payload = ''{}''\<rparr> nh_example_world)
     = [\<lparr>e_id = 101, e_deviceId = 7, e_detectedAt = 1000, e_notificationSent = 1\<rparr>]
   \<and> nh_motionEvents (nh_on_message nh_example_config (nh_example_env (Http_response 500 True))
       \<lparr>topic = ''device/cam1/motion'', payload = ''{}''\<rparr> nh_example_world)
     = [\<lparr>e_id = 101, e_deviceId = 7, e_detectedAt = 1000, e_notificationSent = 0\<rparr>]
   \<and> nh_motionEvents (nh_on_message nh_example_config (nh_example_env Http_exception)
       \<lparr>topic = ''device/cam1/motion'', payload = ''{}''\<rparr> nh_example_world)
     = [\<lparr>e_id = 101, e_deviceId = 7, e_detectedAt = 1000, e_notificationSent = 0\<rparr>]
   \<and> nh_motionEvents (nh_on_message \<lparr>api_url = [], api_key = []\<rparr>
       (nh_example_env (Http_response 200 True))
       \<lparr>topic = ''device/cam1/motion'', payload = ''{}''\<rparr> nh_example_world)
     = [\<lparr>e_id = 101, e_deviceId = 7, e_detectedAt = 1000, e_notificationSent = 0\<rparr>]"
proof -
  let ?msg = "\<lparr>topic = ''device/cam1/motion'', payload = ''{}''\<rparr>"
  let ?info = "\<lparr>i_id = 7, i_ownerId = 1, i_name = ''nest'', i_deviceId = ''cam1'',
                 i_email = ''a@b.c'', i_userName = ''ann''\<rparr>"
  note at = notification_sent_flag [where w = nh_example_world and msg = ?msg
      and decoded = "[123, 125]" and device_id = "''cam1''" and info = ?info]
  show ?thesis
    using at [where e = "nh_example_env (Http_response 200 True)" and cfg = nh_example_config]
      at [where e = "nh_example_env (Http_response 500 True)" and cfg = nh_example_config]
      at [where e = "nh_example_env Http_exception" and cfg = nh_example_config]
      at [where e = "nh_example_env (Http_response 200 True)"
            and cfg = "\<lparr>api_url = [], api_key = []\<rparr>"]
      nh_lookup_example json_payload
    by (simp add: nh_example_defs)
qed

subsection \<open>Finalizing a session\<close>

text \<open>The four ways through \<^verbatim>\<open>finalize_video\<close>, and the step of a stream message.\<close>

lemma foldl_delete_video_active_captures:
  "active_captures (foldl delete_video w vs) = active_captures w"
  by (induction vs arbitrary: w) (simp_all add: delete_video_def)

lemma cleanup_old_videos_active_captures:
  "active_captures (cleanup_old_videos e dev w) = active_captures w"
  by (simp add: cleanup_old_videos_def Let_def foldl_delete_video_active_captures)

lemma finalize_video_abort:
  assumes "active_captures w device_id = Some c" and "length (frames c) < 5"
  shows "finalize_video e device_id w =
           w\<lparr>active_captures := (active_captures w)(device_id := None)\<rparr>"
  using assms by (simp add: finalize_video_def)

lemma finalize_video_encode_failed:
  assumes "active_captures w device_id = Some c" and "5 \<le> length (frames c)"
    and "ffmpeg e = None"
  shows "finalize_video e device_id w =
           w\<lparr>trace := trace w @
                [Ffmpeg (frames c)
                   (VIDEO_DIR @ ''/'' @ device_id @ ''_'' @ stamp e @ ''.mjpeg'')],
             active_captures := (active_captures w)(device_id := None)\<rparr>"
  using assms by (simp add: finalize_video_def create_mjpeg_video_def Let_def)

lemma finalize_video_save_failed:
  assumes "active_captures w device_id = Some c" and "5 \<le> length (frames c)"
    and "ffmpeg e = Some data" and "\<not> save_ok e"
  shows "finalize_video e device_id w =
           w\<lparr>trace := trace w @
                [Ffmpeg (frames c)
                   (VIDEO_DIR @ ''/'' @ device_id @ ''_'' @ stamp e @ ''.mjpeg'')],
             files := (files w)
                (VIDEO_DIR @ ''/'' @ device_id @ ''_'' @ stamp e @ ''.mjpeg'' := None),
             active_captures := (active_captures w)(device_id := None)\<rparr>"
  using assms
  by (simp add: finalize_video_def create_mjpeg_video_def save_video_to_db_def Let_def)

lemma finalize_video_committed:
  assumes "active_captures w device_id = Some c" and "5 \<le> length (frames c)"
    and "ffmpeg e = Some data" and "save_ok e"
  shows "finalize_video e device_id w =
           (cleanup_old_videos e (device_db_id c)
              (w\<lparr>files := (files w)
                   (VIDEO_DIR @ ''/'' @ device_id @ ''_'' @ stamp e @ ''.mjpeg'' \<mapsto> data),
                 motionVideos := motionVideos w @
                   [\<lparr>v_id = Suc (video_seq w), v_deviceId = device_db_id c,
                     v_motionEventId = motion_event_id c,
                     v_filename = device_id @ ''_'' @ stamp e @ ''.mjpeg'',
                     v_filepath =
                       VIDEO_DIR @ ''/'' @ device_id @ ''_'' @ stamp e @ ''.mjpeg'',
                     v_duration = VIDEO_DURATION, v_filesize = length data,
                     v_capturedAt = db_now e\<rparr>],
                 video_seq := Suc (video_seq w),
                 trace := trace w @
                   [Ffmpeg (frames c)
                      (VIDEO_DIR @ ''/'' @ device_id @ ''_'' @ stamp e @ ''.mjpeg''),
                    Sql (Insert_video (device_db_id c) (motion_event_id c)
                           (device_id @ ''_'' @ stamp e @ ''.mjpeg'')
                           (VIDEO_DIR @ ''/'' @ device_id @ ''_'' @ stamp e @ ''.mjpeg'')
                           VIDEO_DURATION (length data))]\<rparr>))
           \<lparr>active_captures := (active_captures w)(device_id := None)\<rparr>"
  using assms
  by (simp add: finalize_video_def create_mjpeg_video_def save_video_to_db_def Let_def
        cleanup_old_videos_active_captures)

lemma on_message_stream:
  assumes "str_split CHR ''/'' (topic msg) = ns # device_id # ''stream'' # rest"
    and "active_captures w device_id = Some c"
    and "frame e = Some image_data"
  shows "on_message e msg w =
           (if VIDEO_DURATION * FRAME_RATE \<le> int (length (frames c @ [image_data]))
               \<or> of_int (VIDEO_DURATION + 1) \<le> clock e - start_time c
            then finalize_video e device_id
                   (w\<lparr>active_captures := (active_captures w)(device_id \<mapsto>
                        c\<lparr>frames := frames c @ [image_data]\<rparr>)\<rparr>)
            else w\<lparr>active_captures := (active_captures w)(device_id \<mapsto>
                        c\<lparr>frames := frames c @ [image_data]\<rparr>)\<rparr>)"
  using assms
  by (simp add: on_message_def process_stream_message_def Let_def dom_def)

text \<open>
  C6. When the completion check fires for a session with fewer than five buffered frames,
  \<^verbatim>\<open>finalize_video\<close> aborts: the world afterwards is the world before without the
  session. The trace is the same, so ffmpeg was not run and no statement was sent to the
  database (no video row, no cleanup); the files are the same; the session is gone. This
  holds for \<^verbatim>\<open>finalize_video\<close> itself and for the stream message whose frame makes the
  check fire (with so few frames only the elapsed time can).
\<close>

theorem abort_below_minimum:
  assumes "active_captures w device_id = Some c"
  shows "(length (frames c) < 5 \<longrightarrow>
            finalize_video e device_id w =
              w\<lparr>active_captures := (active_captures w)(device_id := None)\<rparr>)
       \<and> (str_split CHR ''/'' (topic msg) = ns # device_id # ''stream'' # rest
          \<and> frame e = Some image_data
          \<and> length (frames c @ [image_data]) < 5
          \<and> (VIDEO_DURATION * FRAME_RATE \<le> int (length (frames c @ [image_data]))
              \<or> of_int (VIDEO_DURATION + 1) \<le> clock e - start_time c) \<longrightarrow>
            on_message e msg w =
              w\<lparr>active_captures := (active_captures w)(device_id := None)\<rparr>)"
proof (intro conjI impI)
  assume "length (frames c) < 5"
  then show "finalize_video e device_id w =
              w\<lparr>active_captures := (active_captures w)(device_id := None)\<rparr>"
    using assms by (rule finalize_video_abort [rotated])
next
  assume a: "str_split CHR ''/'' (topic msg) = ns # device_id # ''stream'' # rest
          \<and> frame e = Some image_data
          \<and> length (frames c @ [image_data]) < 5
          \<and> (VIDEO_DURATION * FRAME_RATE \<le> int (length (frames c @ [image_data]))
              \<or> of_int (VIDEO_DURATION + 1) \<le> clock e - start_time c)"
  let ?w1 = "w\<lparr>active_captures := (active_captures w)(device_id \<mapsto>
                        c\<lparr>frames := frames c @ [image_data]\<rparr>)\<rparr>"
  have "on_message e msg w = finalize_video e device_id ?w1"
    using on_message_stream [of msg ns device_id rest w c e image_data] assms a by simp
  also have "\<dots> = ?w1\<lparr>active_captures := (active_captures ?w1)(device_id := None)\<rparr>"
    using a by (intro finalize_video_abort [where c = "c\<lparr>frames := frames c @ [image_data]\<rparr>"]) simp_all
  finally show "on_message e msg w =
              w\<lparr>active_captures := (active_captures w)(device_id := None)\<rparr>"
    by simp
qed

theorem abort_below_minimum_witness:
  "active_captures open_world ''cam1''
     = Some \<lparr>frames = [''f1''], start_time = 0, motion_event_id = 100, device_db_id = 7\<rparr>
   \<and> finalize_video example_env ''cam1'' open_world = example_world
   \<and> on_message (example_env\<lparr>clock := 7\<rparr>) stream_message open_world = example_world"
  using abort_below_minimum [of open_world "''cam1''"
      "\<lparr>frames = [''f1''], start_time = 0, motion_event_id = 100, device_db_id = 7\<rparr>"
      example_env stream_message "''device''" "[]" "''f2''"]
    abort_below_minimum [of open_world "''cam1''"
      "\<lparr>frames = [''f1''], start_time = 0, motion_event_id = 100, device_db_id = 7\<rparr>"
      "example_env\<lparr>clock := 7\<rparr>" stream_message "''device''" "[]" "''f2''"]
  by (simp add: example_defs VIDEO_DURATION_def FRAME_RATE_def)

text \<open>
  C7. When ffmpeg succeeds and \<^verbatim>\<open>save_video_to_db\<close> fails, the file just written is
  removed, no row is added to \<^verbatim>\<open>motionVideos\<close>, the only call that left the process
  is the ffmpeg run (the cleanup sends nothing), and the session is removed.
\<close>

theorem save_failure_rolls_back:
  assumes "active_captures w device_id = Some c" and "5 \<le> length (frames c)"
    and "ffmpeg e = Some data" and "\<not> save_ok e"
  shows "finalize_video e device_id w =
           w\<lparr>trace := trace w @
                [Ffmpeg (frames c)
                   (VIDEO_DIR @ ''/'' @ device_id @ ''_'' @ stamp e @ ''.mjpeg'')],
             files := (files w)
                (VIDEO_DIR @ ''/'' @ device_id @ ''_'' @ stamp e @ ''.mjpeg'' := None),
             active_captures := (active_captures w)(device_id := None)\<rparr>
       \<and> files (finalize_video e device_id w)
            (VIDEO_DIR @ ''/'' @ device_id @ ''_'' @ stamp e @ ''.mjpeg'') = None
       \<and> motionVideos (finalize_video e device_id w) = motionVideos w
       \<and> active_captures (finalize_video e device_id w) device_id = None"
  using finalize_video_save_failed [OF assms] by simp

theorem save_failure_rolls_back_witness:
  "finalize_video (example_env\<lparr>save_ok := False\<rparr>) ''cam1'' five_world =
     example_world\<lparr>trace :=
        [Ffmpeg [''f1'', ''f2'', ''f3'', ''f4'', ''f5'']
           ''/opt/birdhouse-viewer/videos/cam1_20240101_120000.mjpeg'']\<rparr>
   \<and> files (finalize_video (example_env\<lparr>save_ok := False\<rparr>) ''cam1'' five_world)
        ''/opt/birdhouse-viewer/videos/cam1_20240101_120000.mjpeg'' = None"
  using save_failure_rolls_back [of five_world "''cam1''"
      "\<lparr>frames = [''f1'', ''f2'', ''f3'', ''f4'', ''f5''], start_time = 0,
        motion_event_id = 100, device_db_id = 7\<rparr>"
      "example_env\<lparr>save_ok := False\<rparr>" "''mjpeg''"]
  by (simp add: example_defs VIDEO_DIR_def)


text \<open>
  C9. When a finalize commits (ffmpeg succeeds and the row is saved), then at the moment
  of the commit, before the cleanup runs, the new row of \<^verbatim>\<open>motionVideos\<close> names the
  path of the file ffmpeg wrote and its \<^verbatim>\<open>filesize\<close> is the size of that file.
\<close>

theorem recorded_filesize_is_file_size:
  assumes "active_captures w device_id = Some c" and "5 \<le> length (frames c)"
    and "ffmpeg e = Some data" and "save_ok e"
  shows "\<exists>commit row.
           finalize_video e device_id w =
             (cleanup_old_videos e (device_db_id c) commit)
               \<lparr>active_captures := (active_captures w)(device_id := None)\<rparr>
         \<and> motionVideos commit = motionVideos w @ [row]
         \<and> v_deviceId row = device_db_id c
         \<and> v_motionEventId row = motion_event_id c
         \<and> v_filepath row = VIDEO_DIR @ ''/'' @ device_id @ ''_'' @ stamp e @ ''.mjpeg''
         \<and> files commit (v_filepath row) = Some data
         \<and> v_filesize row = length data"
proof -
  let ?path = "VIDEO_DIR @ ''/'' @ device_id @ ''_'' @ stamp e @ ''.mjpeg''"
  let ?name = "device_id @ ''_'' @ stamp e @ ''.mjpeg''"
  let ?row = "\<lparr>v_id = Suc (video_seq w), v_deviceId = device_db_id c,
                v_motionEventId = motion_event_id c, v_filename = ?name,
                v_filepath = ?path, v_duration = VIDEO_DURATION,
                v_filesize = length data, v_capturedAt = db_now e\<rparr>"
  let ?commit = "w\<lparr>files := (files w)(?path \<mapsto> data),
                   motionVideos := motionVideos w @ [?row],
                   video_seq := Suc (video_seq w),
                   trace := trace w @
                     [Ffmpeg (frames c) ?path,
                      Sql (Insert_video (device_db_id c) (motion_event_id c) ?name ?path
                             VIDEO_DURATION (length data))]\<rparr>"
  have "finalize_video e device_id w =
          (cleanup_old_videos e (device_db_id c) ?commit)
            \<lparr>active_captures := (active_captures w)(device_id := None)\<rparr>"
    by (rule finalize_video_committed [OF assms])
  moreover have "motionVideos ?commit = motionVideos w @ [?row]"
    by simp
  moreover have "files ?commit (v_filepath ?row) = Some data"
    by simp
  ultimately show ?thesis
    by (intro exI [of _ ?commit] exI [of _ ?row]) simp
qed

theorem recorded_filesize_is_file_size_witness:
  "\<exists>commit row.
     finalize_video example_env ''cam1'' five_world =
       (cleanup_old_videos example_env 7 commit)\<lparr>active_captures := Map.empty\<rparr>
     \<and> motionVideos commit = [row]
     \<and> v_deviceId row = 7
     \<and> v_motionEventId row = 100
     \<and> v_filepath row = ''/opt/birdhouse-viewer/videos/cam1_20240101_120000.mjpeg''
     \<and> files commit (v_filepath row) = Some ''mjpeg''
     \<and> v_filesize row = length ''mjpeg''"
  using recorded_filesize_is_file_size [of five_world "''cam1''"
      "\<lparr>frames = [''f1'', ''f2'', ''f3'', ''f4'', ''f5''], start_time = 0,
        motion_event_id = 100, device_db_id = 7\<rparr>"
      example_env "''mjpeg''"]
  by (simp add: example_defs VIDEO_DIR_def)

subsection \<open>Completion of a session\<close>

lemma run_append: "run (xs @ ys) w = run ys (run xs w)"
  by (induction xs arbitrary: w) auto

lemma arrival_frames_append:
  "arrival_frames (xs @ ys) = arrival_frames xs @ arrival_frames ys"
  by (induction xs rule: arrival_frames.induct) (auto split: option.splits)

lemma length_arrival_frames:
  "\<forall>em \<in> set ems. frame_for device_id em \<Longrightarrow> length (arrival_frames ems) = length ems"
  by (induction ems rule: arrival_frames.induct) (auto simp add: frame_for_def Let_def)

lemma on_message_frame_for:
  assumes "frame_for device_id (e, msg)"
    and "active_captures w device_id = Some c"
    and "frame e = Some image_data"
  shows "on_message e msg w =
           (if VIDEO_DURATION * FRAME_RATE \<le> int (length (frames c @ [image_data]))
               \<or> of_int (VIDEO_DURATION + 1) \<le> clock e - start_time c
            then finalize_video e device_id
                   (w\<lparr>active_captures := (active_captures w)(device_id \<mapsto>
                        c\<lparr>frames := frames c @ [image_data]\<rparr>)\<rparr>)
            else w\<lparr>active_captures := (active_captures w)(device_id \<mapsto>
                        c\<lparr>frames := frames c @ [image_data]\<rparr>)\<rparr>)"
  using assms
  by (auto simp add: frame_for_def on_message_def process_stream_message_def Let_def dom_def)

lemma run_buffers_frames:
  assumes "active_captures w device_id = Some c"
    and "\<forall>em \<in> set ems. frame_for device_id em
           \<and> clock (fst em) - start_time c < of_int (VIDEO_DURATION + 1)"
    and "int (length (frames c) + length ems) < VIDEO_DURATION * FRAME_RATE"
  shows "run ems w =
           w\<lparr>active_captures := (active_captures w)(device_id \<mapsto>
                c\<lparr>frames := frames c @ arrival_frames ems\<rparr>)\<rparr>"
  using assms
proof (induction ems arbitrary: w c)
  case Nil
  then show ?case by (simp add: map_upd_triv)
next
  case (Cons em ems)
  obtain e msg where em: "em = (e, msg)" by (cases em)
  from Cons.prems(2) em have ff: "frame_for device_id (e, msg)"
    and timely: "clock e - start_time c < of_int (VIDEO_DURATION + 1)"
    by auto
  then obtain image_data where fr: "frame e = Some image_data"
    by (auto simp add: frame_for_def Let_def)
  let ?c1 = "c\<lparr>frames := frames c @ [image_data]\<rparr>"
  let ?w1 = "w\<lparr>active_captures := (active_captures w)(device_id \<mapsto> ?c1)\<rparr>"
  have few: "\<not> VIDEO_DURATION * FRAME_RATE \<le> int (length (frames c @ [image_data]))"
    using Cons.prems(3) by simp
  have step: "on_message e msg w = ?w1"
    using on_message_frame_for [OF ff Cons.prems(1) fr] few timely by simp
  have ih: "run ems ?w1 =
          ?w1\<lparr>active_captures := (active_captures ?w1)(device_id \<mapsto>
                ?c1\<lparr>frames := frames ?c1 @ arrival_frames ems\<rparr>)\<rparr>"
    using Cons.prems(2,3) by (intro Cons.IH) simp_all
  have same: "?w1\<lparr>active_captures := (active_captures ?w1)(device_id \<mapsto>
                ?c1\<lparr>frames := frames ?c1 @ arrival_frames ems\<rparr>)\<rparr>
              = w\<lparr>active_captures := (active_captures w)(device_id \<mapsto>
                c\<lparr>frames := frames c @ arrival_frames ((e, msg) # ems)\<rparr>)\<rparr>"
    using fr by simp
  have "run (em # ems) w = run ems ?w1"
    using em step by simp
  then show ?case
    using ih same em by (simp only:)
qed

lemma foldl_delete_video_trace:
  "trace (foldl delete_video w vs) = trace w @ map (\<lambda>v. Sql (Delete_video (v_id v))) vs"
  by (induction vs arbitrary: w) (simp_all add: delete_video_def)

lemma cleanup_old_videos_trace:
  "\<exists>sqls. trace (cleanup_old_videos e dev w) = trace w @ map Sql sqls"
proof (cases "cleanup_ok e")
  case False
  then have "trace (cleanup_old_videos e dev w) = trace w @ map Sql []"
    by (simp add: cleanup_old_videos_def)
  then show ?thesis by blast
next
  case True
  let ?n = "length (device_videos dev w)"
  let ?k = "?n - MAX_VIDEOS + 1"
  let ?old = "take ?k (sort_key v_capturedAt (device_videos dev w))"
  show ?thesis
  proof (cases "MAX_VIDEOS \<le> ?n")
    case False
    with True have "trace (cleanup_old_videos e dev w) = trace w @ map Sql [Count_videos dev]"
      by (simp add: cleanup_old_videos_def Let_def)
    then show ?thesis by blast
  next
    case full: True
    with True have "trace (cleanup_old_videos e dev w) =
        trace w @ map Sql (Count_videos dev # Select_oldest_videos dev ?k
                           # map (\<lambda>v. Delete_video (v_id v)) ?old)"
      by (simp add: cleanup_old_videos_def Let_def foldl_delete_video_trace comp_def)
    then show ?thesis by blast
  qed
qed

lemma finalize_video_trace:
  assumes "active_captures w device_id = Some c" and "5 \<le> length (frames c)"
  shows "\<exists>sqls. trace (finalize_video e device_id w) =
           trace w @ Ffmpeg (frames c)
                       (VIDEO_DIR @ ''/'' @ device_id @ ''_'' @ stamp e @ ''.mjpeg'')
                     # map Sql sqls"
proof (cases "ffmpeg e")
  case None
  then have "trace (finalize_video e device_id w) =
           trace w @ Ffmpeg (frames c)
                       (VIDEO_DIR @ ''/'' @ device_id @ ''_'' @ stamp e @ ''.mjpeg'')
                     # map Sql []"
    using finalize_video_encode_failed [OF assms, of e] by simp
  then show ?thesis by blast
next
  case (Some data)
  show ?thesis
  proof (cases "save_ok e")
    case False
    then have "trace (finalize_video e device_id w) =
           trace w @ Ffmpeg (frames c)
                       (VIDEO_DIR @ ''/'' @ device_id @ ''_'' @ stamp e @ ''.mjpeg'')
                     # map Sql []"
      using finalize_video_save_failed [OF assms Some] by simp
    then show ?thesis by blast
  next
    case True
    let ?path = "VIDEO_DIR @ ''/'' @ device_id @ ''_'' @ stamp e @ ''.mjpeg''"
    let ?ins = "Insert_video (device_db_id c) (motion_event_id c)
                  (device_id @ ''_'' @ stamp e @ ''.mjpeg'') ?path VIDEO_DURATION (length data)"
    obtain commit where fin: "finalize_video e device_id w =
          (cleanup_old_videos e (device_db_id c) commit)
            \<lparr>active_captures := (active_captures w)(device_id := None)\<rparr>"
      and tr: "trace commit = trace w @ [Ffmpeg (frames c) ?path, Sql ?ins]"
      using finalize_video_committed [OF assms Some True] by simp
    obtain sqls where "trace (cleanup_old_videos e (device_db_id c) commit)
                         = trace commit @ map Sql sqls"
      using cleanup_old_videos_trace by blast
    then have "trace (finalize_video e device_id w) =
                 trace w @ Ffmpeg (frames c) ?path # map Sql (?ins # sqls)"
      using fin tr by simp
    then show ?thesis by blast
  qed
qed

lemma finalize_video_closes_session:
  "active_captures (finalize_video e device_id w) = (active_captures w)(device_id := None)"
proof (cases "active_captures w device_id")
  case None
  then show ?thesis by (auto simp add: finalize_video_def)
next
  case (Some c)
  show ?thesis
  proof (cases "length (frames c) < 5")
    case True
    then show ?thesis using finalize_video_abort [OF Some True, of e] by simp
  next
    case False
    then have many: "5 \<le> length (frames c)" by simp
    show ?thesis
    proof (cases "ffmpeg e")
      case None
      then show ?thesis using finalize_video_encode_failed [OF Some many None] by simp
    next
      case (Some data)
      note enc = this
      show ?thesis
      proof (cases "save_ok e")
        case True
        then show ?thesis
          using finalize_video_committed [OF \<open>active_captures w device_id = Some c\<close> many enc True]
          by simp
      next
        case False
        then show ?thesis
          using finalize_video_save_failed [OF \<open>active_captures w device_id = Some c\<close> many enc False]
          by simp
      qed
    qed
  qed
qed


lemma stream_frame_example: "frame_for ''cam1'' (example_env, stream_message)"
  by (simp add: frame_for_def example_defs)

text \<open>
  C3, as the code has it. A session that has just been opened (no frames yet) and is fed
  the frames of 50 stream messages, the first 49 of them each less than 6 seconds after
  the start of the session, buffers the first 49 without finalizing and finalizes on the
  50th, within that call, with the 50 frames in the order of arrival: ffmpeg is run
  exactly once, on these frames, every later entry of the trace is a database statement,
  and the session is closed. For a single frame, \<^verbatim>\<open>finalize_video\<close> is called, within
  the call that appends the frame, exactly when the buffer then holds at least 50 frames
  or at least 6 seconds have passed since the start of the session (6 seconds exactly
  is enough).
\<close>

theorem fifty_frames_one_finalize:
  assumes "active_captures w device_id = Some c" and "frames c = []"
    and "int (Suc (length ems)) = VIDEO_DURATION * FRAME_RATE"
    and "\<forall>em \<in> set ems. frame_for device_id em
           \<and> clock (fst em) - start_time c < of_int (VIDEO_DURATION + 1)"
    and "frame_for device_id (e, msg)"
  shows "run ems w =
           w\<lparr>active_captures := (active_captures w)(device_id \<mapsto>
                c\<lparr>frames := arrival_frames ems\<rparr>)\<rparr>
       \<and> run (ems @ [(e, msg)]) w =
           finalize_video e device_id
             (w\<lparr>active_captures := (active_captures w)(device_id \<mapsto>
                  c\<lparr>frames := arrival_frames (ems @ [(e, msg)])\<rparr>)\<rparr>)
       \<and> length (arrival_frames (ems @ [(e, msg)])) = 50
       \<and> (\<exists>sqls. trace (run (ems @ [(e, msg)]) w) =
             trace w @ Ffmpeg (arrival_frames (ems @ [(e, msg)]))
                         (VIDEO_DIR @ ''/'' @ device_id @ ''_'' @ stamp e @ ''.mjpeg'')
                       # map Sql sqls)
       \<and> active_captures (run (ems @ [(e, msg)]) w) device_id = None
       \<and> (frame_for device_id (e', msg') \<and> active_captures w' device_id = Some c'
            \<and> frame e' = Some image_data \<longrightarrow>
          on_message e' msg' w' =
            (if 50 \<le> length (frames c') + 1 \<or> 6 \<le> clock e' - start_time c'
             then finalize_video e' device_id
                    (w'\<lparr>active_captures := (active_captures w')(device_id \<mapsto>
                          c'\<lparr>frames := frames c' @ [image_data]\<rparr>)\<rparr>)
             else w'\<lparr>active_captures := (active_captures w')(device_id \<mapsto>
                          c'\<lparr>frames := frames c' @ [image_data]\<rparr>)\<rparr>))"
proof -
  let ?all = "ems @ [(e, msg)]"
  let ?buf = "\<lambda>fs. w\<lparr>active_captures := (active_captures w)(device_id \<mapsto>
                c\<lparr>frames := fs\<rparr>)\<rparr>"
  obtain image where fr: "frame e = Some image"
    using assms(5) by (auto simp add: frame_for_def Let_def)
  have len: "length ems = 49"
    using assms(3) by (simp add: VIDEO_DURATION_def FRAME_RATE_def)
  have first: "run ems w = ?buf (arrival_frames ems)"
    using run_buffers_frames [OF assms(1,4)] assms(2,3) by simp
  have all_frames: "arrival_frames ?all = arrival_frames ems @ [image]"
    using fr by (simp add: arrival_frames_append)
  have count: "length (arrival_frames ems) = 49"
    using length_arrival_frames [of ems device_id] assms(4) len by simp
  have last_step: "on_message e msg (?buf (arrival_frames ems)) =
                     finalize_video e device_id (?buf (arrival_frames ?all))"
    using on_message_frame_for [OF assms(5), of "?buf (arrival_frames ems)"
            "c\<lparr>frames := arrival_frames ems\<rparr>" image] fr count all_frames
    by (simp add: VIDEO_DURATION_def FRAME_RATE_def)
  have whole: "run ?all w = finalize_video e device_id (?buf (arrival_frames ?all))"
    using first last_step by (simp add: run_append)
  have n50: "length (arrival_frames ?all) = 50"
    using all_frames count by simp
  have tr: "\<exists>sqls. trace (run ?all w) =
             trace w @ Ffmpeg (arrival_frames ?all)
                         (VIDEO_DIR @ ''/'' @ device_id @ ''_'' @ stamp e @ ''.mjpeg'')
                       # map Sql sqls"
    using finalize_video_trace [of "?buf (arrival_frames ?all)" device_id
            "c\<lparr>frames := arrival_frames ?all\<rparr>" e] n50 whole
    by simp
  have closed: "active_captures (run ?all w) device_id = None"
    using whole by (simp add: finalize_video_closes_session)
  have single: "frame_for device_id (e', msg') \<and> active_captures w' device_id = Some c'
            \<and> frame e' = Some image_data \<longrightarrow>
          on_message e' msg' w' =
            (if 50 \<le> length (frames c') + 1 \<or> 6 \<le> clock e' - start_time c'
             then finalize_video e' device_id
                    (w'\<lparr>active_captures := (active_captures w')(device_id \<mapsto>
                          c'\<lparr>frames := frames c' @ [image_data]\<rparr>)\<rparr>)
             else w'\<lparr>active_captures := (active_captures w')(device_id \<mapsto>
                          c'\<lparr>frames := frames c' @ [image_data]\<rparr>)\<rparr>)"
  proof
    assume a: "frame_for device_id (e', msg') \<and> active_captures w' device_id = Some c'
            \<and> frame e' = Some image_data"
    then show "on_message e' msg' w' =
            (if 50 \<le> length (frames c') + 1 \<or> 6 \<le> clock e' - start_time c'
             then finalize_video e' device_id
                    (w'\<lparr>active_captures := (active_captures w')(device_id \<mapsto>
                          c'\<lparr>frames := frames c' @ [image_data]\<rparr>)\<rparr>)
             else w'\<lparr>active_captures := (active_captures w')(device_id \<mapsto>
                          c'\<lparr>frames := frames c' @ [image_data]\<rparr>)\<rparr>)"
      using on_message_frame_for [of device_id e' msg' w' c' image_data]
      by (simp add: VIDEO_DURATION_def FRAME_RATE_def)
  qed
  show ?thesis
    using first whole n50 tr closed single by (intro conjI)
qed

theorem fifty_frames_one_finalize_witness:
  "active_captures started_world ''cam1''
     = Some \<lparr>frames = [], start_time = 0, motion_event_id = 101, device_db_id = 7\<rparr>
   \<and> length (replicate 49 (example_env, stream_message) @ [(example_env, stream_message)]) = 50
   \<and> length (arrival_frames
        (replicate 49 (example_env, stream_message) @ [(example_env, stream_message)])) = 50
   \<and> run (replicate 49 (example_env, stream_message) @ [(example_env, stream_message)])
        started_world =
       finalize_video example_env ''cam1''
         (started_world\<lparr>active_captures := (active_captures started_world)(''cam1'' \<mapsto>
            \<lparr>frames = [], start_time = 0, motion_event_id = 101, device_db_id = 7\<rparr>
              \<lparr>frames := arrival_frames
                 (replicate 49 (example_env, stream_message)
                  @ [(example_env, stream_message)])\<rparr>)\<rparr>)
   \<and> active_captures
        (run (replicate 49 (example_env, stream_message) @ [(example_env, stream_message)])
           started_world) ''cam1'' = None"
proof -
  let ?c = "\<lparr>frames = [], start_time = 0, motion_event_id = 101, device_db_id = 7\<rparr>"
  let ?ems = "replicate 49 (example_env, stream_message)"
  have h1: "active_captures started_world ''cam1'' = Some ?c"
    by (simp add: started_world_def)
  have h2: "frames ?c = []"
    by simp
  have h3: "int (Suc (length ?ems)) = VIDEO_DURATION * FRAME_RATE"
    by (simp add: VIDEO_DURATION_def FRAME_RATE_def)
  have h4: "\<forall>em \<in> set ?ems. frame_for ''cam1'' em
              \<and> clock (fst em) - start_time ?c < of_int (VIDEO_DURATION + 1)"
    using stream_frame_example by (simp add: VIDEO_DURATION_def example_env_def)
  note th = fifty_frames_one_finalize [OF h1 h2 h3 h4 stream_frame_example,
      where e' = example_env and msg' = stream_message and w' = started_world
        and c' = ?c and image_data = "''f2''"]
  have len: "length (?ems @ [(example_env, stream_message)]) = 50"
    by simp
  show ?thesis
    using th h1 len by blast
qed

text \<open>
  The claim as the specification states it fails: the second frame of a session arrives
  exactly 6 seconds after its start. The elapsed time does not exceed 6 and the buffer is
  far from 50 frames, yet \<^verbatim>\<open>finalize_video\<close> is called and the session is closed.
\<close>

theorem finalize_at_six_seconds_counterexample:
  "active_captures open_world ''cam1''
     = Some \<lparr>frames = [''f1''], start_time = 0, motion_event_id = 100, device_db_id = 7\<rparr>
   \<and> frame (example_env\<lparr>clock := 6\<rparr>) = Some ''f2''
   \<and> length ([''f1''] @ [''f2'']) < 50
   \<and> \<not> (of_int (VIDEO_DURATION + 1) < clock (example_env\<lparr>clock := 6\<rparr>) - 0)
   \<and> on_message (example_env\<lparr>clock := 6\<rparr>) stream_message open_world =
       finalize_video (example_env\<lparr>clock := 6\<rparr>) ''cam1''
         (open_world\<lparr>active_captures :=
            [''cam1'' \<mapsto> \<lparr>frames = [''f1'', ''f2''], start_time = 0,
                           motion_event_id = 100, device_db_id = 7\<rparr>]\<rparr>)
   \<and> active_captures (on_message (example_env\<lparr>clock := 6\<rparr>) stream_message open_world)
        ''cam1'' = None"
  by (simp add: example_defs on_message_def process_stream_message_def finalize_video_def
        Let_def dom_def VIDEO_DURATION_def FRAME_RATE_def)

subsection \<open>Retention\<close>

text \<open>
  The loop of \<^verbatim>\<open>cleanup_old_videos\<close> removes exactly the rows it selected, and the
  number of rows it leaves for the device.
\<close>

lemma delete_video_motionVideos:
  "motionVideos (delete_video w a) = filter (\<lambda>v. v_id v \<noteq> v_id a) (motionVideos w)"
  by (simp add: delete_video_def)

lemma foldl_delete_video_motionVideos:
  "motionVideos (foldl delete_video w vs) =
     filter (\<lambda>v. v_id v \<notin> v_id ` set vs) (motionVideos w)"
proof (induction vs arbitrary: w)
  case Nil
  show ?case by simp
next
  case (Cons a vs)
  have "motionVideos (foldl delete_video w (a # vs)) =
          filter (\<lambda>v. v_id v \<notin> v_id ` set vs)
            (filter (\<lambda>v. v_id v \<noteq> v_id a) (motionVideos w))"
    by (simp only: foldl_Cons Cons delete_video_motionVideos)
  also have "\<dots> = filter (\<lambda>v. v_id v \<notin> v_id ` set (a # vs)) (motionVideos w)"
    by (auto intro: filter_cong)
  finally show ?case .
qed


lemma length_filter_removed:
  assumes "distinct (map f xs)" and "set ys \<subseteq> set xs" and "distinct ys"
  shows "length (filter (\<lambda>x. f x \<notin> f ` set ys) xs) = length xs - length ys"
proof -
  have inj: "inj_on f (set xs)" and dx: "distinct xs"
    using assms(1) by (auto simp add: distinct_map)
  have eq: "set (filter (\<lambda>x. f x \<notin> f ` set ys) xs) = set xs - set ys"
  proof (rule set_eqI)
    fix x
    show "x \<in> set (filter (\<lambda>x. f x \<notin> f ` set ys) xs) \<longleftrightarrow> x \<in> set xs - set ys"
    proof
      assume "x \<in> set (filter (\<lambda>x. f x \<notin> f ` set ys) xs)"
      then show "x \<in> set xs - set ys" by auto
    next
      assume a: "x \<in> set xs - set ys"
      have "f x \<notin> f ` set ys"
      proof
        assume "f x \<in> f ` set ys"
        then obtain y where y: "y \<in> set ys" "f x = f y" by blast
        then have "y \<in> set xs" using assms(2) by blast
        then have "x = y" using inj a y(2) by (simp add: inj_on_def)
        then show False using a y(1) by simp
      qed
      then show "x \<in> set (filter (\<lambda>x. f x \<notin> f ` set ys) xs)" using a by simp
    qed
  qed
  have "length (filter (\<lambda>x. f x \<notin> f ` set ys) xs)
          = card (set (filter (\<lambda>x. f x \<notin> f ` set ys) xs))"
    using dx distinct_card [of "filter (\<lambda>x. f x \<notin> f ` set ys) xs"]
    by (simp only: distinct_filter)
  also have "\<dots> = card (set xs - set ys)"
    by (simp only: eq)
  also have "\<dots> = card (set xs) - card (set ys)"
    using assms(2) by (simp add: card_Diff_subset)
  also have "\<dots> = length xs - length ys"
    using dx assms(3) by (simp add: distinct_card)
  finally show ?thesis .
qed


lemma cleanup_old_videos_count:
  assumes "cleanup_ok e" and "distinct (map v_id (motionVideos w))"
  shows "length (device_videos dev (cleanup_old_videos e dev w)) =
           (if MAX_VIDEOS \<le> length (device_videos dev w)
            then MAX_VIDEOS - 1 else length (device_videos dev w))"
proof (cases "MAX_VIDEOS \<le> length (device_videos dev w)")
  case False
  then show ?thesis
    using assms(1) by (simp add: cleanup_old_videos_def Let_def device_videos_def)
next
  case True
  let ?rows = "device_videos dev w"
  let ?k = "length ?rows - MAX_VIDEOS + 1"
  let ?old = "take ?k (sort_key v_capturedAt ?rows)"
  let ?w2 = "w\<lparr>trace := trace w @ [Sql (Count_videos dev), Sql (Select_oldest_videos dev ?k)]\<rparr>"
  have dr: "distinct (map v_id ?rows)"
    using assms(2) by (simp add: device_videos_def distinct_map_filter)
  then have drows: "distinct ?rows"
    by (simp add: distinct_map)
  have sub: "set ?old \<subseteq> set ?rows"
    using set_take_subset [of ?k "sort_key v_capturedAt ?rows"] by simp
  have dold: "distinct ?old"
    using drows by (simp add: distinct_take)
  have lold: "length ?old = ?k"
    using True by (simp add: MAX_VIDEOS_def)
  have run: "cleanup_old_videos e dev w = foldl delete_video ?w2 ?old"
    using assms(1) True by (simp add: cleanup_old_videos_def Let_def)
  have "device_videos dev (foldl delete_video ?w2 ?old)
          = filter (\<lambda>v. v_deviceId v = dev)
              (filter (\<lambda>v. v_id v \<notin> v_id ` set ?old) (motionVideos w))"
    by (simp only: device_videos_def foldl_delete_video_motionVideos) simp
  also have "\<dots> = filter (\<lambda>v. v_id v \<notin> v_id ` set ?old) ?rows"
    unfolding device_videos_def filter_filter by (rule filter_cong) auto
  finally have "length (device_videos dev (cleanup_old_videos e dev w))
               = length ?rows - length ?old"
    using length_filter_removed [OF dr sub dold] run by simp
  then show ?thesis
    using True lold by (simp add: MAX_VIDEOS_def)
qed


lemma device_videos_active_captures_update:
  "device_videos dev (w\<lparr>active_captures := m\<rparr>) = device_videos dev w"
  by (simp add: device_videos_def)

lemma full_world_ids: "map v_id (map stored_video [1..<50]) = [1..<50]"
  by (simp add: stored_video_def comp_def)

lemma full_world_rows:
  "filter (\<lambda>v. v_deviceId v = 7) (map stored_video [1..<50]) = map stored_video [1..<50]"
  by (simp add: stored_video_def filter_map comp_def)

text \<open>
  At the cap, with the 49 stored videos of the example and the new one: the cleanup
  deletes video 1, the oldest.
\<close>

lemma cleanup_old_videos_full_trace:
  assumes "cleanup_ok e" and "MAX_VIDEOS \<le> length (device_videos dev w)"
  shows "trace (cleanup_old_videos e dev w) =
           trace w @ [Sql (Count_videos dev),
                      Sql (Select_oldest_videos dev
                             (length (device_videos dev w) - MAX_VIDEOS + 1))]
           @ map (\<lambda>v. Sql (Delete_video (v_id v)))
               (take (length (device_videos dev w) - MAX_VIDEOS + 1)
                  (sort_key v_capturedAt (device_videos dev w)))"
  using assms by (simp add: cleanup_old_videos_def Let_def foldl_delete_video_trace)

lemma full_world_sorted:
  assumes "v_capturedAt r = 1000"
  shows "sort_key v_capturedAt (map stored_video [1..<50] @ [r])
           = map stored_video [1..<50] @ [r]"
proof (rule sort_key_id_if_sorted)
  have "map v_capturedAt (map stored_video [1..<50]) = [1..<50]"
    by (simp add: stored_video_def comp_def)
  then show "sorted (map v_capturedAt (map stored_video [1..<50] @ [r]))"
    using assms by (simp add: sorted_append)
qed

lemma take_one_full: "take 1 (map stored_video [1..<50] @ rest) = [stored_video 1]"
  by (simp add: upt_conv_Cons)

lemma oldest_deleted_at_cap:
  "Sql (Delete_video 1) \<in> set (trace (finalize_video example_env ''cam1'' full_world))"
proof -
  let ?c = "\<lparr>frames = [''f1'', ''f2'', ''f3'', ''f4'', ''f5''], start_time = 0,
              motion_event_id = 100, device_db_id = 7\<rparr>"
  let ?path = "VIDEO_DIR @ ''/'' @ ''cam1'' @ ''_'' @ stamp example_env @ ''.mjpeg''"
  let ?name = "''cam1'' @ ''_'' @ stamp example_env @ ''.mjpeg''"
  let ?row = "\<lparr>v_id = Suc (video_seq full_world), v_deviceId = device_db_id ?c,
                v_motionEventId = motion_event_id ?c, v_filename = ?name,
                v_filepath = ?path, v_duration = VIDEO_DURATION,
                v_filesize = length ''mjpeg'', v_capturedAt = db_now example_env\<rparr>"
  let ?commit = "full_world\<lparr>files := (files full_world)(?path \<mapsto> ''mjpeg''),
                   motionVideos := motionVideos full_world @ [?row],
                   video_seq := Suc (video_seq full_world),
                   trace := trace full_world @
                     [Ffmpeg (frames ?c) ?path,
                      Sql (Insert_video (device_db_id ?c) (motion_event_id ?c) ?name ?path
                             VIDEO_DURATION (length ''mjpeg''))]\<rparr>"
  have mv: "motionVideos full_world = map stored_video [1..<50]"
    by (simp add: full_world_def)
  have h1: "active_captures full_world ''cam1'' = Some ?c"
    by (simp add: full_world_def five_world_def)
  have fin: "finalize_video example_env ''cam1'' full_world =
          (cleanup_old_videos example_env (device_db_id ?c) ?commit)
            \<lparr>active_captures := (active_captures full_world)(''cam1'' := None)\<rparr>"
    by (rule finalize_video_committed [OF h1]) (simp_all add: example_env_def)
  have rows: "device_videos 7 ?commit = map stored_video [1..<50] @ [?row]"
    using full_world_rows by (simp add: device_videos_def mv)
  have at: "v_capturedAt ?row = 1000"
    by (simp add: example_env_def)
  have old: "take (length (device_videos 7 ?commit) - MAX_VIDEOS + 1)
               (sort_key v_capturedAt (device_videos 7 ?commit)) = [stored_video 1]"
    unfolding rows full_world_sorted [OF at]
    using take_one_full [of "[?row]"] by (simp add: MAX_VIDEOS_def)
  have ok: "cleanup_ok example_env"
    by (simp add: example_env_def)
  have full: "MAX_VIDEOS \<le> length (device_videos 7 ?commit)"
    unfolding rows by (simp add: MAX_VIDEOS_def)
  have "Sql (Delete_video 1) \<in> set (trace (cleanup_old_videos example_env 7 ?commit))"
    unfolding cleanup_old_videos_full_trace [OF ok full] old
    by (simp add: stored_video_def)
  then show ?thesis
    unfolding fin by simp
qed

text \<open>
  C2, what the code does. \<^verbatim>\<open>cleanup_old_videos\<close> runs after the new row is stored,
  tests \<^verbatim>\<open>count >= MAX_VIDEOS\<close> and deletes \<^verbatim>\<open>count - MAX_VIDEOS + 1\<close> rows. So
  after a finalize that commits and whose cleanup goes through, the device has one row
  more than before while that stays below \<^verbatim>\<open>MAX_VIDEOS\<close>, and \<^verbatim>\<open>MAX_VIDEOS - 1\<close>
  rows from then on: the number of stored videos never reaches the configured maximum,
  and one video more is deleted than the claim says. The hypotheses on the identifiers
  say that they are distinct and not beyond the last one handed out.
\<close>

theorem retention_keeps_one_below_max:
  assumes "active_captures w device_id = Some c" and "5 \<le> length (frames c)"
    and "ffmpeg e = Some data" and "save_ok e" and "cleanup_ok e"
    and "distinct (map v_id (motionVideos w))"
    and "\<forall>v \<in> set (motionVideos w). v_id v \<le> video_seq w"
  shows "length (device_videos (device_db_id c) (finalize_video e device_id w)) =
           (if MAX_VIDEOS \<le> Suc (length (device_videos (device_db_id c) w))
            then MAX_VIDEOS - 1
            else Suc (length (device_videos (device_db_id c) w)))
       \<and> length (device_videos (device_db_id c) (finalize_video e device_id w)) < MAX_VIDEOS"
proof -
  let ?dev = "device_db_id c"
  let ?path = "VIDEO_DIR @ ''/'' @ device_id @ ''_'' @ stamp e @ ''.mjpeg''"
  let ?name = "device_id @ ''_'' @ stamp e @ ''.mjpeg''"
  let ?row = "\<lparr>v_id = Suc (video_seq w), v_deviceId = ?dev,
                v_motionEventId = motion_event_id c, v_filename = ?name,
                v_filepath = ?path, v_duration = VIDEO_DURATION,
                v_filesize = length data, v_capturedAt = db_now e\<rparr>"
  let ?commit = "w\<lparr>files := (files w)(?path \<mapsto> data),
                   motionVideos := motionVideos w @ [?row],
                   video_seq := Suc (video_seq w),
                   trace := trace w @
                     [Ffmpeg (frames c) ?path,
                      Sql (Insert_video ?dev (motion_event_id c) ?name ?path
                             VIDEO_DURATION (length data))]\<rparr>"
  have fin: "finalize_video e device_id w =
          (cleanup_old_videos e ?dev ?commit)
            \<lparr>active_captures := (active_captures w)(device_id := None)\<rparr>"
    by (rule finalize_video_committed [OF assms(1-4)])
  have fresh: "Suc (video_seq w) \<notin> v_id ` set (motionVideos w)"
    using assms(7) by auto
  have dist: "distinct (map v_id (motionVideos ?commit))"
    using assms(6) fresh by simp
  have rows: "length (device_videos ?dev ?commit) = Suc (length (device_videos ?dev w))"
    by (simp add: device_videos_def)
  have "length (device_videos ?dev (finalize_video e device_id w))
          = length (device_videos ?dev (cleanup_old_videos e ?dev ?commit))"
    by (simp only: fin device_videos_active_captures_update)
  also have "\<dots> = (if MAX_VIDEOS \<le> length (device_videos ?dev ?commit)
                    then MAX_VIDEOS - 1 else length (device_videos ?dev ?commit))"
    by (rule cleanup_old_videos_count [OF assms(5) dist])
  finally have count: "length (device_videos ?dev (finalize_video e device_id w)) =
           (if MAX_VIDEOS \<le> Suc (length (device_videos ?dev w))
            then MAX_VIDEOS - 1
            else Suc (length (device_videos ?dev w)))"
    by (simp only: rows)
  then have "length (device_videos ?dev (finalize_video e device_id w)) < MAX_VIDEOS"
    by (simp add: MAX_VIDEOS_def)
  with count show ?thesis by (rule conjI)
qed

theorem retention_keeps_one_below_max_witness:
  "length (device_videos 7 full_world) = 49
   \<and> MAX_VIDEOS = 50
   \<and> length (device_videos 7 (finalize_video example_env ''cam1'' full_world)) = 49
   \<and> Sql (Delete_video 1) \<in> set (trace (finalize_video example_env ''cam1'' full_world))"
proof -
  let ?c = "\<lparr>frames = [''f1'', ''f2'', ''f3'', ''f4'', ''f5''], start_time = 0,
              motion_event_id = 100, device_db_id = 7\<rparr>"
  have h1: "active_captures full_world ''cam1'' = Some ?c"
    by (simp add: full_world_def five_world_def)
  have h2: "5 \<le> length (frames ?c)"
    by simp
  have h3: "ffmpeg example_env = Some ''mjpeg''" and h4: "save_ok example_env"
    and h5: "cleanup_ok example_env"
    by (simp_all add: example_env_def)
  have mv: "motionVideos full_world = map stored_video [1..<50]"
    by (simp add: full_world_def)
  have h6: "distinct (map v_id (motionVideos full_world))"
    unfolding mv full_world_ids by simp
  have h7: "\<forall>v \<in> set (motionVideos full_world). v_id v \<le> video_seq full_world"
    by (auto simp add: full_world_def stored_video_def)
  have n: "length (device_videos 7 full_world) = 49"
    unfolding device_videos_def mv full_world_rows by simp
  show ?thesis
    using retention_keeps_one_below_max [OF h1 h2 h3 h4 h5 h6 h7] n oldest_deleted_at_cap
    by (simp add: MAX_VIDEOS_def)
qed

end
